theory Spec2Isabelle
  imports Complex_Main "HOL-Library.Sublist" "HOL-Library.AList" "HOL-Library.Log_Nat"
begin

section \<open>Fraud detection dashboard: data model\<close>

text \<open>
  The dashboard page (\<^verbatim>\<open>Index\<close>, in \<^verbatim>\<open>src/unnamed/part_000\<close>) keeps a list of scored
  transactions, filters and paginates it in memory, refreshes it from a backend and falls
  back to generated mock data. \<^verbatim>\<open>ChartsPanel\<close> (\<^verbatim>\<open>src/unnamed/part_001\<close>) aggregates the
  list and \<^verbatim>\<open>ExplainModal\<close> normalises explanation items.

  Conventions of the model:
  \<^item> a JavaScript number is the rational value (\<^typ>\<open>rat\<close>) of a finite IEEE double;
    comparisons are exact, and every addition and multiplication of the generator and of
    the aggregation is rounded to the nearest double by \<open>fl\<close> below. Page indices, counts
    and time values are integers (\<^typ>\<open>int\<close>, \<^typ>\<open>nat\<close>), on which the arithmetic of the
    page is exact below \<open>2 ^ 53\<close>. \<^verbatim>\<open>NaN\<close> and the infinities are outside the model;
  \<^item> a string is a \<^typ>\<open>string\<close>; lower-casing and the printing of numbers are taken from
    the platform;
  \<^item> the field \<open>timestamp\<close> holds the time value of \<^verbatim>\<open>new Date(t.tx.timestamp)\<close> in
    milliseconds, \<open>None\<close> for an Invalid Date (every comparison with it is false);
  \<^item> React state is an explicit record, and every function of the component reads the
    current record and returns the updated one.
\<close>

record transaction =
  transaction_id :: string
  user_id :: string
  amount :: rat
  country :: string
  device :: string
  merchant :: string
  timestamp :: "int option"

record scored =
  tx :: transaction
  score :: rat
  label :: bool

text \<open>
  What the page takes from its platform: the successive results of \<^verbatim>\<open>Math.random()\<close>, the
  time value of \<^verbatim>\<open>new Date()\<close>, the two local-time normalisations
  \<^verbatim>\<open>d.setHours(0, 0, 0, 0)\<close> and \<^verbatim>\<open>d.setHours(23, 59, 59, 999)\<close>, which depend on the time zone
  of the browser, \<^verbatim>\<open>String.prototype.toLowerCase\<close>, which follows the Unicode case mapping,
  and the conversion of a number to a string in a template literal.
\<close>

record platform =
  random :: "nat \<Rightarrow> rat"
  now :: int
  startOfDay :: "int \<Rightarrow> int"
  endOfDay :: "int \<Rightarrow> int"
  toLowerCase :: "string \<Rightarrow> string"
  numberToString :: "rat \<Rightarrow> string"

text \<open>The notifications raised through \<^verbatim>\<open>toast\<close>.\<close>

datatype toast =
  HighRisk nat      \<comment> \<open>\<^verbatim>\<open>toast.error("<n> new high-risk transaction(s) detected!")\<close>\<close>
| UsingDemoData     \<comment> \<open>\<^verbatim>\<open>toast.error("Using demo data")\<close>\<close>
| Refreshed         \<comment> \<open>\<^verbatim>\<open>toast.success("Refreshed")\<close>\<close>

text \<open>
  The state of \<^verbatim>\<open>Index\<close>: its \<^verbatim>\<open>useState\<close> cells, the \<^verbatim>\<open>previousTransactionsRef\<close> and the log
  of notifications shown so far. (The cells \<^verbatim>\<open>summary\<close> and \<^verbatim>\<open>explain\<close> play no part in
  filtering or refreshing and are left out.)
\<close>

record dashboard =
  transactions :: "scored list"
  allTransactions :: "scored list"
  loading :: bool
  demoMode :: bool
  searchQuery :: string
  page :: int
  perPage :: int
  total :: nat
  amountRange :: "rat \<times> rat"
  selectedCountries :: "string list"
  selectedMerchants :: "string list"
  fraudOnly :: bool
  dateRange :: "int option \<times> int option"
  previousTransactionsRef :: "scored list"
  toasts :: "toast list"

text \<open>The initial values given to \<^verbatim>\<open>useState\<close> and \<^verbatim>\<open>useRef\<close>.\<close>

definition initial :: dashboard where
  "initial =
     \<lparr>transactions = [], allTransactions = [], loading = False, demoMode = False,
      searchQuery = [], page = 1, perPage = 10, total = 0, amountRange = (0, 5000),
      selectedCountries = [], selectedMerchants = [], fraudOnly = False,
      dateRange = (None, None), previousTransactionsRef = [], toasts = []\<rparr>"

section \<open>JavaScript numbers\<close>

text \<open>
  A finite double is \<open>m * 2 ^ e\<close> with \<open>\<bar>m\<bar> < 2 ^ 53\<close> and \<open>- 1074 \<le> e\<close>. \<open>expo x\<close> is the
  binary exponent of \<open>x\<close>, the \<open>e\<close> with \<open>2 ^ e \<le> \<bar>x\<bar> < 2 ^ (e + 1)\<close>, and \<open>binade x\<close> the same
  cut off at \<open>- 1022\<close>, where the subnormal range begins; \<open>ulp x\<close> is the spacing of the
  doubles around \<open>x\<close>; \<open>rne\<close> rounds
  to the nearest integer, to the even one at a tie; \<open>fl\<close> rounds to the nearest double, as
  every arithmetic operation on numbers does. Results of magnitude \<open>2 ^ 1024\<close> and more,
  which overflow to an infinity, are outside the model.
\<close>

definition expo :: "rat \<Rightarrow> int" where
  "expo x =
     (if 1 \<le> \<bar>x\<bar> then bitlen \<lfloor>\<bar>x\<bar>\<rfloor> - 1 else - bitlen (\<lceil>1 / \<bar>x\<bar>\<rceil> - 1))"

definition binade :: "rat \<Rightarrow> int" where
  "binade x = max (expo x) (- 1022)"

definition ulp :: "rat \<Rightarrow> rat" where
  "ulp x = 2 powi (binade x - 52)"

definition rne :: "rat \<Rightarrow> int" where
  "rne q =
     (let f = \<lfloor>q\<rfloor>; r = q - of_int f
      in if r < 1 / 2 then f else if 1 / 2 < r then f + 1 else if even f then f else f + 1)"

definition fl :: "rat \<Rightarrow> rat" where
  "fl x = (if x = 0 then 0 else of_int (rne (x / ulp x)) * ulp x)"

section \<open>String and array primitives\<close>

text \<open>
  The lower-casing of ASCII text, on which every platform agrees: \<^verbatim>\<open>A\<close> to \<^verbatim>\<open>Z\<close> are
  shifted. It is the lower-casing of the sample platform below.
\<close>

definition lower_char :: "char \<Rightarrow> char" where
  "lower_char c =
     (let n = (of_char c :: nat) in if 65 \<le> n \<and> n \<le> 90 then char_of (n + 32) else c)"

definition asciiLowerCase :: "string \<Rightarrow> string" where
  "asciiLowerCase s = map lower_char s"

text \<open>\<^verbatim>\<open>s.includes(q)\<close>: \<open>q\<close> occurs in \<open>s\<close> as a contiguous run of characters.\<close>

fun starts_with :: "string \<Rightarrow> string \<Rightarrow> bool" where
  "starts_with s [] = True"
| "starts_with [] (q # qs) = False"
| "starts_with (c # cs) (q # qs) = (c = q \<and> starts_with cs qs)"

fun js_includes :: "string \<Rightarrow> string \<Rightarrow> bool" where
  "js_includes [] q = (q = [])"
| "js_includes (c # cs) q = (starts_with (c # cs) q \<or> js_includes cs q)"

text \<open>
  \<^verbatim>\<open>xs.slice(start, stop)\<close>: a negative index counts from the end, and both indices are
  clamped to the array.
\<close>

definition js_slice :: "'a list \<Rightarrow> int \<Rightarrow> int \<Rightarrow> 'a list" where
  "js_slice xs start stop =
     (let len = int (length xs);
          k = (if start < 0 then max (len + start) 0 else min start len);
          final = (if stop < 0 then max (len + stop) 0 else min stop len)
      in take (nat (final - k)) (drop (nat k) xs))"

section \<open>The filter engine\<close>

text \<open>
  The local variable \<^verbatim>\<open>filtered\<close> of \<^verbatim>\<open>applyFilters\<close> after the last predicate pass. The
  passes run in the order of the source; the amount pass is the only unconditional one.
\<close>

definition matchesSearch :: "platform \<Rightarrow> string \<Rightarrow> scored \<Rightarrow> bool" where
  "matchesSearch pf q t \<longleftrightarrow>
     js_includes (toLowerCase pf (user_id (tx t))) (toLowerCase pf q) \<or>
     js_includes (toLowerCase pf (merchant (tx t))) (toLowerCase pf q) \<or>
     js_includes (toLowerCase pf (country (tx t))) (toLowerCase pf q)"

definition onOrAfter :: "int \<Rightarrow> scored \<Rightarrow> bool" where
  "onOrAfter lo t = (case timestamp (tx t) of None \<Rightarrow> False | Some txDate \<Rightarrow> lo \<le> txDate)"

definition onOrBefore :: "int \<Rightarrow> scored \<Rightarrow> bool" where
  "onOrBefore hi t = (case timestamp (tx t) of None \<Rightarrow> False | Some txDate \<Rightarrow> txDate \<le> hi)"

definition filtered :: "platform \<Rightarrow> dashboard \<Rightarrow> scored list \<Rightarrow> scored list" where
  "filtered pf st data =
     (let f0 = data;
          f1 = (if searchQuery st \<noteq> [] then filter (matchesSearch pf (searchQuery st)) f0 else f0);
          f2 = filter (\<lambda>t. fst (amountRange st) \<le> amount (tx t) \<and>
                            amount (tx t) \<le> snd (amountRange st)) f1;
          f3 = (if 0 < length (selectedCountries st)
                then filter (\<lambda>t. country (tx t) \<in> set (selectedCountries st)) f2 else f2);
          f4 = (if 0 < length (selectedMerchants st)
                then filter (\<lambda>t. merchant (tx t) \<in> set (selectedMerchants st)) f3 else f3);
          f5 = (if fraudOnly st then filter label f4 else f4);
          f6 = (case fst (dateRange st) of
                  None \<Rightarrow> f5
                | Some d \<Rightarrow> filter (onOrAfter (startOfDay pf d)) f5);
          f7 = (case snd (dateRange st) of
                  None \<Rightarrow> f6
                | Some d \<Rightarrow> filter (onOrBefore (endOfDay pf d)) f6)
      in f7)"

definition applyFilters :: "platform \<Rightarrow> dashboard \<Rightarrow> scored list \<Rightarrow> dashboard" where
  "applyFilters pf st data =
     (let f = filtered pf st data;
          start = (page st - 1) * perPage st
      in st\<lparr>total := length f, transactions := js_slice f start (start + perPage st)\<rparr>)"

section \<open>The mock data generator\<close>

text \<open>
  The decimal numeral of an integer, with a minus sign when it is negative: what a
  template literal writes for an integer of magnitude below \<open>10 ^ 21\<close>. (Larger numbers are
  written with an exponent; the conversion itself is a function of the platform.)
\<close>

definition digit_char :: "nat \<Rightarrow> char" where
  "digit_char d = char_of (48 + d)"

fun show_nat :: "nat \<Rightarrow> string" where
  "show_nat n = (if n < 10 then [digit_char n] else show_nat (n div 10) @ [digit_char (n mod 10)])"

definition show_int :: "int \<Rightarrow> string" where
  "show_int i = (if i < 0 then CHR ''-'' # show_nat (nat (- i)) else show_nat (nat i))"

text \<open>
  The number that the string \<^verbatim>\<open>x.toFixed(2)\<close> denotes, for a double \<open>x\<close> of magnitude below
  \<open>10 ^ 21\<close>: the multiple of 1/100 nearest to the value of \<open>x\<close>, the larger one at a tie, on
  the absolute value. \<^verbatim>\<open>parseFloat\<close> then rounds it to a double.
\<close>

definition toFixed2 :: "rat \<Rightarrow> rat" where
  "toFixed2 x =
     (if x < 0 then - (of_int \<lfloor>(- x) * 100 + 1 / 2\<rfloor> / 100) else of_int \<lfloor>x * 100 + 1 / 2\<rfloor> / 100)"

text \<open>
  \<^verbatim>\<open>xs[Math.floor(r * xs.length)]\<close>. Outside the array JavaScript yields \<^verbatim>\<open>undefined\<close>,
  written here as the string \<open>''undefined''\<close>.
\<close>

definition pick :: "string list \<Rightarrow> rat \<Rightarrow> string" where
  "pick xs r =
     (let i = \<lfloor>fl (r * of_nat (length xs))\<rfloor>
      in if 0 \<le> i \<and> i < int (length xs) then xs ! nat i else ''undefined'')"

definition MOCK_MERCHANTS :: "string list" where
  "MOCK_MERCHANTS =
     [''Amazon'', ''Uber'', ''Apple Store'', ''Walmart'', ''Target'', ''Netflix'', ''Steam'']"

text \<open>
  The record pushed by one iteration of the loop of \<^verbatim>\<open>generateMockTransactions\<close>; \<open>k\<close> is
  the number of draws made before it. The draws are taken in evaluation order: amount,
  fraud flag, user, country, device, merchant, score. Every product and sum is rounded,
  and the literals \<^verbatim>\<open>0.7\<close> and \<^verbatim>\<open>0.4\<close> are the doubles nearest to them (\<^verbatim>\<open>0.5\<close>, \<^verbatim>\<open>100\<close>,
  \<^verbatim>\<open>200\<close> and \<^verbatim>\<open>5000\<close> are doubles). The offset is an integer, as the callers pass.
\<close>

definition mockTransaction :: "platform \<Rightarrow> int \<Rightarrow> nat \<Rightarrow> nat \<Rightarrow> scored" where
  "mockTransaction pf offset i k =
     (let amt = fl (fl (random pf k * 5000) + 100);
          isFraud = (fl (7 / 10) < random pf (k + 1))
      in \<lparr>tx = \<lparr>transaction_id =
                  ''TX'' @ numberToString pf (fl (fl (of_int offset + of_nat i) + 1)),
                user_id =
                  ''U'' @ numberToString pf (of_int \<lfloor>fl (random pf (k + 2) * 200)\<rfloor>),
                amount = fl (toFixed2 amt),
                country = pick [''US'', ''IN'', ''GB'', ''CA''] (random pf (k + 3)),
                device = pick [''mobile'', ''desktop''] (random pf (k + 4)),
                merchant = pick MOCK_MERCHANTS (random pf (k + 5)),
                timestamp = Some (now pf)\<rparr>,
          score = (if isFraud then fl (fl (random pf (k + 6) * (1 / 2)) + 1 / 2)
                   else fl (random pf (k + 6) * fl (4 / 10))),
          label = isFraud\<rparr>)"

text \<open>
  The loop of \<^verbatim>\<open>generateMockTransactions\<close>. Its counter is exact: an array holds fewer
  than \<open>2 ^ 32\<close> elements.
\<close>

function mockLoop :: "platform \<Rightarrow> nat \<Rightarrow> int \<Rightarrow> nat \<Rightarrow> nat \<Rightarrow> scored list \<Rightarrow> scored list" where
  "mockLoop pf count offset i k arr =
     (if i < count
      then mockLoop pf count offset (i + 1) (k + 7) (arr @ [mockTransaction pf offset i k])
      else arr)"
  by pat_completeness auto
termination
  by (relation "measure (\<lambda>(pf, count, offset, i, k, arr). count - i)") auto

definition generateMockTransactions :: "platform \<Rightarrow> nat \<Rightarrow> int \<Rightarrow> scored list" where
  "generateMockTransactions pf count offset = mockLoop pf count offset 0 0 []"

section \<open>The refresh controller\<close>

text \<open>
  The outcome of \<^verbatim>\<open>fetch(url)\<close> followed by \<^verbatim>\<open>res.json()\<close>: the request is rejected, the
  status is not 2xx, the body does not parse, or the body parses and has a \<^verbatim>\<open>results\<close>
  array or none.
\<close>

datatype fetch_result =
  NetworkError
| NotOk nat
| MalformedBody
| Body "scored list option"

text \<open>
  \<^verbatim>\<open>data.results || []\<close>, the set difference of the high-risk check (against the literal
  \<^verbatim>\<open>0.7\<close>, a double), and the \<^verbatim>\<open>try\<close> block of \<^verbatim>\<open>fetchTransactions\<close>: \<open>None\<close> when it throws,
  which it does before any state is written.
\<close>

definition resultsOrEmpty :: "scored list option \<Rightarrow> scored list" where
  "resultsOrEmpty results = (case results of None \<Rightarrow> [] | Some r \<Rightarrow> r)"

definition newHighRisk :: "scored list \<Rightarrow> scored list \<Rightarrow> scored list" where
  "newHighRisk previous allData =
     filter (\<lambda>t. label t \<and> fl (7 / 10) < score t \<and>
                  \<not> list_ex (\<lambda>prev. transaction_id (tx prev) = transaction_id (tx t)) previous)
       allData"

definition fetchTry :: "platform \<Rightarrow> dashboard \<Rightarrow> bool \<Rightarrow> fetch_result \<Rightarrow> dashboard option" where
  "fetchTry pf st silent res =
     (case res of
        NetworkError \<Rightarrow> None
      | NotOk status \<Rightarrow> None
      | MalformedBody \<Rightarrow> None
      | Body results \<Rightarrow>
          (let allData = resultsOrEmpty results;
               st1 = st\<lparr>allTransactions := allData\<rparr>;
               st2 = (if silent \<and> 0 < length (previousTransactionsRef st1)
                      then (let hr = newHighRisk (previousTransactionsRef st1) allData
                            in if 0 < length hr
                               then st1\<lparr>toasts := toasts st1 @ [HighRisk (length hr)]\<rparr>
                               else st1)
                      else st1);
               st3 = st2\<lparr>previousTransactionsRef := allData\<rparr>
           in Some (applyFilters pf st3 allData)))"

text \<open>The \<^verbatim>\<open>catch\<close> block.\<close>

definition fetchCatch :: "platform \<Rightarrow> dashboard \<Rightarrow> bool \<Rightarrow> dashboard" where
  "fetchCatch pf st silent =
     (let st1 = (if \<not> silent then st\<lparr>toasts := toasts st @ [UsingDemoData]\<rparr> else st);
          st2 = st1\<lparr>demoMode := True\<rparr>;
          mockData = generateMockTransactions pf 100 0;
          st3 = st2\<lparr>allTransactions := mockData\<rparr>;
          st4 = st3\<lparr>previousTransactionsRef := mockData\<rparr>
      in applyFilters pf st4 mockData)"

definition fetchTransactions :: "platform \<Rightarrow> dashboard \<Rightarrow> bool \<Rightarrow> fetch_result \<Rightarrow> dashboard" where
  "fetchTransactions pf st silent res =
     (let st1 = (if \<not> silent then st\<lparr>loading := True\<rparr> else st);
          st2 = (case fetchTry pf st1 silent res of
                   Some s \<Rightarrow> s
                 | None \<Rightarrow> fetchCatch pf st1 silent)
      in if \<not> silent then st2\<lparr>loading := False\<rparr> else st2)"

section \<open>Filter changes and paging\<close>

text \<open>
  The setters handed to \<^verbatim>\<open>FilterControls\<close> and to the search box. Each writes one cell;
  the effect that depends on the cell then runs \<^verbatim>\<open>applyFilters(allTransactions)\<close>.
\<close>

datatype change =
  SetSearchQuery string
| SetAmountRange "rat \<times> rat"
| SetSelectedCountries "string list"
| SetSelectedMerchants "string list"
| SetFraudOnly bool
| SetDateRange "int option \<times> int option"

fun setCell :: "change \<Rightarrow> dashboard \<Rightarrow> dashboard" where
  "setCell (SetSearchQuery q) st = st\<lparr>searchQuery := q\<rparr>"
| "setCell (SetAmountRange r) st = st\<lparr>amountRange := r\<rparr>"
| "setCell (SetSelectedCountries cs) st = st\<lparr>selectedCountries := cs\<rparr>"
| "setCell (SetSelectedMerchants ms) st = st\<lparr>selectedMerchants := ms\<rparr>"
| "setCell (SetFraudOnly b) st = st\<lparr>fraudOnly := b\<rparr>"
| "setCell (SetDateRange d) st = st\<lparr>dateRange := d\<rparr>"

definition filterEffect :: "platform \<Rightarrow> dashboard \<Rightarrow> dashboard" where
  "filterEffect pf st = applyFilters pf st (allTransactions st)"

definition filterChange :: "platform \<Rightarrow> change \<Rightarrow> dashboard \<Rightarrow> dashboard" where
  "filterChange pf c st = filterEffect pf (setCell c st)"

definition resetFilters :: "platform \<Rightarrow> dashboard \<Rightarrow> dashboard" where
  "resetFilters pf st =
     filterEffect pf
       (st\<lparr>amountRange := (0, 5000), selectedCountries := [], selectedMerchants := [],
           fraudOnly := False, dateRange := (None, None), searchQuery := [], page := 1\<rparr>)"

text \<open>\<^verbatim>\<open>Math.ceil(total / perPage)\<close>, for the non-zero page size of the component.\<close>

definition totalPages :: "dashboard \<Rightarrow> int" where
  "totalPages st = \<lceil>(of_nat (total st) :: rat) / of_int (perPage st)\<rceil>"

section \<open>Chart aggregations\<close>






section \<open>Explanation items\<close>

text \<open>
  A property of a payload item is absent (\<^verbatim>\<open>undefined\<close>), \<^verbatim>\<open>null\<close>, or has a value. A raw
  feature value is a number or a string.
\<close>

datatype 'a js = Undefined | Null | Val 'a

datatype raw = RNum rat | RStr string

record explanation_item =
  it_feature :: "string js"
  it_feature_name :: "string js"
  it_shap_value :: "rat js"
  it_shapValue :: "rat js"
  it_value :: "raw js"
  it_feature_value :: "raw js"

record canonical_item =
  feature :: string
  shap_value :: rat
  raw_value :: "raw option"

text \<open>
  A destructuring default \<^verbatim>\<open>{ x = d }\<close> applies when the property is \<^verbatim>\<open>undefined\<close> only;
  \<^verbatim>\<open>a ?? b\<close> yields \<open>b\<close> when \<open>a\<close> is \<^verbatim>\<open>undefined\<close> or \<^verbatim>\<open>null\<close>.
\<close>

definition destructure_default :: "'a js \<Rightarrow> 'a js \<Rightarrow> 'a js" where
  "destructure_default x d = (case x of Undefined \<Rightarrow> d | Null \<Rightarrow> Null | Val v \<Rightarrow> Val v)"

definition nullish :: "'a js \<Rightarrow> 'a js \<Rightarrow> 'a js" where
  "nullish a b = (case a of Undefined \<Rightarrow> b | Null \<Rightarrow> b | Val v \<Rightarrow> Val v)"

text \<open>
  The function mapped over \<^verbatim>\<open>rawItems\<close> in \<^verbatim>\<open>ExplainModal\<close>. The last operand of each
  \<^verbatim>\<open>??\<close> chain is a constant, so the chain ends in a value; \<^verbatim>\<open>Number\<close> leaves a number as
  it is.
\<close>

definition normalizeItem :: "explanation_item \<Rightarrow> canonical_item" where
  "normalizeItem it =
     (let feature0 = it_feature it;
          feature_name0 = destructure_default (it_feature_name it) feature0;
          shap_value0 = it_shap_value it;
          shapValue0 = destructure_default (it_shapValue it) shap_value0;
          value0 = it_value it;
          feature_value0 = destructure_default (it_feature_value it) value0
      in \<lparr>feature = (case nullish feature_name0 (Val ''unknown'') of
                        Val s \<Rightarrow> s | Null \<Rightarrow> ''unknown'' | Undefined \<Rightarrow> ''unknown''),
          shap_value = (case nullish (nullish shapValue0 shap_value0) (Val 0) of
                          Val r \<Rightarrow> r | Null \<Rightarrow> 0 | Undefined \<Rightarrow> 0),
          raw_value = (case nullish (nullish feature_value0 value0) Null of
                         Val v \<Rightarrow> Some v | Null \<Rightarrow> None | Undefined \<Rightarrow> None)\<rparr>)"

definition items :: "explanation_item list \<Rightarrow> canonical_item list" where
  "items rawItems = map normalizeItem rawItems"

section \<open>Specification predicates and sample data\<close>

text \<open>
  The conjunction of the active predicates, as the specification words it: a predicate
  whose filter field is empty imposes nothing.
\<close>

definition activePredicates :: "platform \<Rightarrow> dashboard \<Rightarrow> scored \<Rightarrow> bool" where
  "activePredicates pf st t \<longleftrightarrow>
     (searchQuery st \<noteq> [] \<longrightarrow> matchesSearch pf (searchQuery st) t) \<and>
     fst (amountRange st) \<le> amount (tx t) \<and> amount (tx t) \<le> snd (amountRange st) \<and>
     (selectedCountries st \<noteq> [] \<longrightarrow> country (tx t) \<in> set (selectedCountries st)) \<and>
     (selectedMerchants st \<noteq> [] \<longrightarrow> merchant (tx t) \<in> set (selectedMerchants st)) \<and>
     (fraudOnly st \<longrightarrow> label t) \<and>
     (case fst (dateRange st) of None \<Rightarrow> True | Some d \<Rightarrow> onOrAfter (startOfDay pf d) t) \<and>
     (case snd (dateRange st) of None \<Rightarrow> True | Some d \<Rightarrow> onOrBefore (endOfDay pf d) t)"


text \<open>
  A browser in the UTC time zone, on ASCII text and numbers that are small integers, whose
  random draws cycle through the doubles nearest to the hundredths; one whose every draw
  is 0.99; and one whose every draw is the largest double below 1.
\<close>

definition utc :: platform where
  "utc = \<lparr>random = (\<lambda>k. fl (of_nat ((37 * k + 11) mod 100) / 100)), now = 1700000000000,
           startOfDay = (\<lambda>d. d - d mod 86400000),
           endOfDay = (\<lambda>d. d - d mod 86400000 + 86399999),
           toLowerCase = asciiLowerCase,
           numberToString = (\<lambda>v. show_int \<lfloor>v\<rfloor>)\<rparr>"

definition highDraws :: platform where
  "highDraws = utc\<lparr>random := (\<lambda>k. fl (99 / 100))\<rparr>"

definition edgeDraws :: platform where
  "edgeDraws = utc\<lparr>random := (\<lambda>k. 1 - 1 / 2 ^ 53)\<rparr>"

definition sampleRow :: "string \<Rightarrow> string \<Rightarrow> rat \<Rightarrow> string \<Rightarrow> string \<Rightarrow> int \<Rightarrow> rat \<Rightarrow> bool \<Rightarrow> scored" where
  "sampleRow i u a c m ts s l =
     \<lparr>tx = \<lparr>transaction_id = i, user_id = u, amount = a, country = c, device = ''mobile'',
             merchant = m, timestamp = Some ts\<rparr>,
      score = s, label = l\<rparr>"

definition sampleData :: "scored list" where
  "sampleData =
     [sampleRow ''TX1'' ''U7'' 120 ''US'' ''Amazon'' 1700000000000 (fl (85 / 100)) True,
      sampleRow ''TX2'' ''U8'' 6000 ''IN'' ''Uber'' 1700000500000 (fl (1 / 10)) False,
      sampleRow ''TX3'' ''U9'' 4500 ''GB'' ''Steam'' 1700090000000 (1 / 2) True]"



definition strictFilters :: dashboard where
  "strictFilters =
     initial\<lparr>searchQuery := ''AMA'', amountRange := (100, 5000), selectedCountries := [''US''],
             selectedMerchants := [''Amazon'', ''Uber''], fraudOnly := True,
             dateRange := (Some 1700001000000, Some 1699999000000)\<rparr>"

text \<open>Page 2 of pages of one row; eleven rows on pages of ten, the second page shown.\<close>

definition pagedState :: dashboard where
  "pagedState = initial\<lparr>page := 2, perPage := 1\<rparr>"

definition manyRows :: "scored list" where
  "manyRows =
     map (\<lambda>i. sampleRow (''TX'' @ show_nat i) (''U'' @ show_nat i) 250 ''US'' ''Amazon''
                  1700000000000 (fl (1 / 10)) False) [0..<11]"

definition pageTwo :: dashboard where
  "pageTwo = filterEffect utc (initial\<lparr>allTransactions := manyRows, page := 2\<rparr>)"

text \<open>An explanation item that carries both names of every pair, with different values.\<close>

definition bothNames :: explanation_item where
  "bothNames =
     \<lparr>it_feature = Val ''amount'', it_feature_name = Val ''num__amount'',
      it_shap_value = Val (15 / 100), it_shapValue = Val (1 / 4),
      it_value = Val (RNum 3), it_feature_value = Val (RNum 4)\<rparr>"

definition standardNames :: explanation_item where
  "standardNames =
     \<lparr>it_feature = Val ''num__amount'', it_feature_name = Undefined,
      it_shap_value = Val (15 / 100), it_shapValue = Undefined,
      it_value = Val (RNum 3), it_feature_value = Null\<rparr>"

section \<open>Properties of the rounding to doubles\<close>

text \<open>
  The exponent brackets its argument; rounding is odd, monotone and idempotent, and it
  leaves every \<open>m * 2 ^ k\<close> with \<open>\<bar>m\<bar> \<le> 2 ^ 53\<close> and \<open>- 1074 \<le> k\<close> as it is, in particular the
  whole numbers up to \<open>2 ^ 53\<close>. The largest double below 1 is \<open>1 - 2 ^ - 53\<close>, and a double
  exceeds the literal \<^verbatim>\<open>0.7\<close> exactly when it exceeds 0.7.
\<close>

lemma expo_bounds:
  assumes "x \<noteq> 0"
  shows "2 powi expo x \<le> \<bar>x\<bar> \<and> \<bar>x\<bar> < 2 powi (expo x + 1)"
proof (cases "1 \<le> \<bar>x\<bar>")
  case True
  define n where "n = \<lfloor>\<bar>x\<bar>\<rfloor>"
  from True have n: "1 \<le> n" by (simp add: n_def le_floor_iff)
  then have b: "2 ^ nat (bitlen n - 1) \<le> n" "n < 2 ^ nat (bitlen n)"
    using bitlen_bounds [of n] by simp_all
  from n have b1: "1 \<le> bitlen n" by (simp add: bitlen_alt_def)
  have e: "expo x = bitlen n - 1" using True by (simp add: expo_def n_def)
  have "(2::rat) powi (bitlen n - 1) = of_int (2 ^ nat (bitlen n - 1))"
    using b1 by (simp add: power_int_def)
  also have "\<dots> \<le> of_int n" using b(1) by (simp only: of_int_le_iff)
  also have "\<dots> \<le> \<bar>x\<bar>" by (simp add: n_def)
  finally have lo: "2 powi (bitlen n - 1) \<le> \<bar>x\<bar>" .
  have "\<bar>x\<bar> < of_int (n + 1)" using floor_correct [of "\<bar>x\<bar>"] by (simp add: n_def)
  also have "\<dots> \<le> of_int (2 ^ nat (bitlen n))" using b(2) by (simp only: of_int_le_iff)
  also have "\<dots> = (2::rat) powi (bitlen n)" using b1 by (simp add: power_int_def)
  finally have "\<bar>x\<bar> < 2 powi (bitlen n)" .
  with lo show ?thesis by (simp add: e)
next
  case False
  define y where "y = 1 / \<bar>x\<bar>"
  define m where "m = \<lceil>y\<rceil>"
  from False assms have y1: "1 < y" by (simp add: y_def)
  then have m2: "2 \<le> m" unfolding m_def by (simp add: le_ceiling_iff)
  then have b: "2 ^ nat (bitlen (m - 1) - 1) \<le> m - 1" "m - 1 < 2 ^ nat (bitlen (m - 1))"
    using bitlen_bounds [of "m - 1"] by simp_all
  from m2 have b1: "1 \<le> bitlen (m - 1)" by (simp add: bitlen_alt_def)
  have e: "expo x = - bitlen (m - 1)" using False by (simp add: expo_def m_def y_def)
  have ypos: "0 < y" using y1 by simp
  have xy: "\<bar>x\<bar> = 1 / y" using assms by (simp add: y_def)
  have "y \<le> of_int m" by (simp add: m_def)
  also have "\<dots> \<le> of_int (2 ^ nat (bitlen (m - 1)))" using b(2) by (simp only: of_int_le_iff)
  also have "\<dots> = (2::rat) powi (bitlen (m - 1))" using b1 by (simp add: power_int_def)
  finally have "y \<le> 2 powi (bitlen (m - 1))" .
  then have "1 / 2 powi (bitlen (m - 1)) \<le> 1 / y"
    using ypos by (simp add: frac_le)
  then have lo: "2 powi (- bitlen (m - 1)) \<le> \<bar>x\<bar>"
    by (simp add: xy power_int_minus_divide)
  have "(2::rat) powi (bitlen (m - 1) - 1) = of_int (2 ^ nat (bitlen (m - 1) - 1))"
    using b1 by (simp add: power_int_def)
  also have "\<dots> \<le> of_int (m - 1)" using b(1) by (simp only: of_int_le_iff)
  also have "\<dots> < y" unfolding m_def using ceiling_correct [of y] by simp
  finally have "2 powi (bitlen (m - 1) - 1) < y" .
  then have "1 / y < 1 / 2 powi (bitlen (m - 1) - 1)"
    by (simp add: frac_less2)
  then have "\<bar>x\<bar> < 2 powi (- (bitlen (m - 1) - 1))"
    by (simp only: xy power_int_minus_divide)
  then have hi: "\<bar>x\<bar> < 2 powi (- bitlen (m - 1) + 1)" by (simp add: algebra_simps)
  from lo hi show ?thesis by (simp add: e)
qed


lemma expo_unique:
  assumes "x \<noteq> 0" and "2 powi e \<le> \<bar>x\<bar>" and "\<bar>x\<bar> < 2 powi (e + 1)"
  shows "expo x = e"
proof -
  from expo_bounds [OF assms(1)] assms(3) have "(2::rat) powi expo x < 2 powi (e + 1)"
    by linarith
  then have "expo x < e + 1"
    using power_int_increasing [of "e + 1" "expo x" "2::rat"] by (cases "expo x < e + 1") auto
  moreover from expo_bounds [OF assms(1)] assms(2) have "(2::rat) powi e < 2 powi (expo x + 1)"
    by linarith
  then have "e < expo x + 1"
    using power_int_increasing [of "expo x + 1" e "2::rat"] by (cases "e < expo x + 1") auto
  ultimately show ?thesis by simp
qed

lemma expo_minus [simp]: "expo (- x) = expo x"
  by (simp add: expo_def)

lemma expo_mono:
  assumes "0 < x" and "x \<le> y"
  shows "expo x \<le> expo y"
proof -
  from assms have x: "x \<noteq> 0" and y: "y \<noteq> 0" by auto
  from expo_bounds [OF x] expo_bounds [OF y] assms
  have "(2::rat) powi expo x < 2 powi (expo y + 1)" by simp
  then have "expo x < expo y + 1"
    using power_int_increasing [of "expo y + 1" "expo x" "2::rat"]
    by (cases "expo x < expo y + 1") auto
  then show ?thesis by simp
qed

lemma rne_of_int [simp]: "rne (of_int n) = n"
  by (simp add: rne_def)

lemma rne_range: "\<lfloor>q\<rfloor> \<le> rne q \<and> rne q \<le> \<lfloor>q\<rfloor> + 1"
  by (simp add: rne_def Let_def)

lemma rne_mono:
  assumes "q \<le> q'"
  shows "rne q \<le> rne q'"
proof (cases "\<lfloor>q\<rfloor> = \<lfloor>q'\<rfloor>")
  case True
  with assms show ?thesis
    by (auto simp: rne_def Let_def)
next
  case False
  with assms have "\<lfloor>q\<rfloor> < \<lfloor>q'\<rfloor>"
    using floor_mono [of q q'] by simp
  with rne_range [of q] rne_range [of q'] show ?thesis by simp
qed

lemma rne_minus: "rne (- q) = - rne q"
proof (cases "q = of_int \<lfloor>q\<rfloor>")
  case True
  then obtain n where "q = of_int n" ..
  then show ?thesis by (simp flip: of_int_minus)
next
  case False
  then have f: "\<lfloor>- q\<rfloor> = - \<lfloor>q\<rfloor> - 1"
    by (metis ceiling_def ceiling_altdef diff_minus_eq_add minus_diff_eq add_diff_cancel_right' minus_add_distrib uminus_add_conv_diff)
  show ?thesis
    unfolding rne_def Let_def f by (simp add: algebra_simps)
qed


lemma ulp_bin: "ulp x = 2 powi (binade x - 52)"
  by (simp add: ulp_def)

lemma ulp_pos [simp]: "0 < ulp x"
  by (simp add: ulp_def)

lemma ulp_minus [simp]: "ulp (- x) = ulp x"
  by (simp add: ulp_def binade_def)

lemma fl_0 [simp]: "fl 0 = 0"
  by (simp add: fl_def)

lemma fl_minus: "fl (- x) = - fl x"
  by (simp add: fl_def rne_minus)

lemma pow53: "(2::rat) powi (e + 1) = 2 ^ 53 * 2 powi (e - 52)"
proof -
  have "e + 1 = 53 + (e - 52)" by simp
  then have "(2::rat) powi (e + 1) = 2 powi (53 + (e - 52))" by (simp only:)
  also have "\<dots> = 2 powi 53 * 2 powi (e - 52)"
    by (rule power_int_add) simp
  finally show ?thesis by simp
qed

lemma pow52: "(2::rat) powi e = 2 ^ 52 * 2 powi (e - 52)"
proof -
  have "e = 52 + (e - 52)" by simp
  then have "(2::rat) powi e = 2 powi (52 + (e - 52))" by (simp only:)
  also have "\<dots> = 2 powi 52 * 2 powi (e - 52)"
    by (rule power_int_add) simp
  finally show ?thesis by simp
qed

lemma quotient_upper:
  assumes "0 < x"
  shows "x / ulp x < 2 ^ 53"
proof -
  from assms have "x \<noteq> 0" by simp
  from expo_bounds [OF this] assms have "x < 2 powi (expo x + 1)" by simp
  also have "\<dots> \<le> 2 powi (binade x + 1)"
    by (rule power_int_increasing) (simp_all add: binade_def)
  also have "\<dots> = 2 ^ 53 * ulp x" by (simp only: pow53 ulp_bin)
  finally show ?thesis by (simp add: pos_divide_less_eq)
qed

lemma quotient_lower:
  assumes "0 < x" and "binade x = expo x"
  shows "2 ^ 52 \<le> x / ulp x"
proof -
  from assms have "x \<noteq> 0" by simp
  from expo_bounds [OF this] assms have "2 powi (binade x) \<le> x" by simp
  then have "2 ^ 52 * ulp x \<le> x" by (simp only: pow52 [symmetric] ulp_bin)
  then show ?thesis by (simp add: pos_le_divide_eq)
qed

lemma rne_upper:
  assumes "0 < x"
  shows "rne (x / ulp x) \<le> 2 ^ 53"
proof -
  from quotient_upper [OF assms] have "x / ulp x \<le> of_int (2 ^ 53)" by simp
  then have "rne (x / ulp x) \<le> rne (of_int (2 ^ 53))" by (rule rne_mono)
  then show ?thesis by (simp only: rne_of_int)
qed

lemma rne_lower:
  assumes "0 < x" and "binade x = expo x"
  shows "2 ^ 52 \<le> rne (x / ulp x)"
proof -
  from quotient_lower [OF assms] have "of_int (2 ^ 52) \<le> x / ulp x" by simp
  then have "rne (of_int (2 ^ 52)) \<le> rne (x / ulp x)" by (rule rne_mono)
  then show ?thesis by (simp only: rne_of_int)
qed

lemma rne_nonneg:
  assumes "0 \<le> q"
  shows "0 \<le> rne q"
proof -
  from assms have "rne (of_int 0) \<le> rne q" by (intro rne_mono) simp
  then show ?thesis by (simp only: rne_of_int)
qed

lemma fl_nonneg:
  assumes "0 \<le> x"
  shows "0 \<le> fl x"
proof (cases "x = 0")
  case True
  then show ?thesis by simp
next
  case False
  with assms have "0 \<le> x / ulp x"
    using less_imp_le [OF ulp_pos [of x]] by (simp add: zero_le_divide_iff)
  then have "0 \<le> rne (x / ulp x)" by (rule rne_nonneg)
  then have "0 \<le> of_int (rne (x / ulp x)) * ulp x"
    using less_imp_le [OF ulp_pos [of x]] by (intro mult_nonneg_nonneg) simp_all
  with False show ?thesis by (simp add: fl_def)
qed

lemma fl_upper:
  assumes "0 < x"
  shows "fl x \<le> 2 powi (binade x + 1)"
proof -
  from rne_upper [OF assms] have "(of_int (rne (x / ulp x)) :: rat) \<le> of_int (2 ^ 53)"
    by (simp only: of_int_le_iff)
  then have "of_int (rne (x / ulp x)) * ulp x \<le> 2 ^ 53 * ulp x"
    by (simp add: mult_right_mono)
  with assms show ?thesis by (simp add: fl_def pow53 ulp_bin)
qed

lemma fl_lower:
  assumes "0 < x" and "binade x = expo x"
  shows "2 powi (binade x) \<le> fl x"
proof -
  from rne_lower [OF assms] have "(of_int (2 ^ 52) :: rat) \<le> of_int (rne (x / ulp x))"
    by (simp only: of_int_le_iff)
  then have "2 ^ 52 * ulp x \<le> of_int (rne (x / ulp x)) * ulp x"
    by (simp add: mult_right_mono)
  with assms(1) show ?thesis by (simp add: fl_def pow52 [of "binade x"] ulp_bin)
qed

lemma fl_mono_pos:
  assumes "0 < x" and "x \<le> y"
  shows "fl x \<le> fl y"
proof -
  from assms have y: "0 < y" by simp
  from expo_mono [OF assms] have b: "binade x \<le> binade y" by (simp add: binade_def)
  show ?thesis
  proof (cases "binade x = binade y")
    case True
    then have u: "ulp x = ulp y" by (simp add: ulp_bin)
    have "x / ulp y \<le> y / ulp y"
      by (rule divide_right_mono [OF assms(2) less_imp_le [OF ulp_pos]])
    then have "rne (x / ulp y) \<le> rne (y / ulp y)" by (rule rne_mono)
    then have "(of_int (rne (x / ulp y)) :: rat) \<le> of_int (rne (y / ulp y))"
      by (simp only: of_int_le_iff)
    then have "of_int (rne (x / ulp y)) * ulp y \<le> of_int (rne (y / ulp y)) * ulp y"
      by (simp add: mult_right_mono)
    with assms(1) y show ?thesis by (simp add: fl_def u)
  next
    case False
    with b have lt: "binade x < binade y" by simp
    then have e: "binade y = expo y" by (auto simp: binade_def max_def split: if_splits)
    have "fl x \<le> 2 powi (binade x + 1)" by (rule fl_upper [OF assms(1)])
    also have "\<dots> \<le> 2 powi (binade y)" using lt by (intro power_int_increasing) simp_all
    also have "\<dots> \<le> fl y" by (rule fl_lower [OF y e])
    finally show ?thesis .
  qed
qed

lemma fl_mono:
  assumes "x \<le> y"
  shows "fl x \<le> fl y"
proof (cases "0 < x")
  case True
  then show ?thesis using assms by (rule fl_mono_pos)
next
  case False
  then have x: "x \<le> 0" by simp
  show ?thesis
  proof (cases "0 \<le> y")
    case True
    from x have "0 \<le> fl (- x)" by (intro fl_nonneg) simp
    then have "fl x \<le> 0" by (simp add: fl_minus)
    also have "0 \<le> fl y" using True by (rule fl_nonneg)
    finally show ?thesis .
  next
    case False
    with assms have "0 < - y" "- y \<le> - x" by simp_all
    then have "fl (- y) \<le> fl (- x)" by (rule fl_mono_pos)
    then show ?thesis by (simp add: fl_minus)
  qed
qed


lemma powi_le_imp_le:
  assumes "(2::rat) powi a \<le> 2 powi b"
  shows "a \<le> b"
proof (rule ccontr)
  assume "\<not> a \<le> b"
  then have "b < a" by simp
  then have "(2::rat) powi b < 2 powi a" by (intro power_int_strict_increasing) simp_all
  with assms show False by simp
qed

lemma fl_exact:
  assumes "x = of_int m * ulp x"
  shows "fl x = x"
proof (cases "x = 0")
  case True
  then show ?thesis by simp
next
  case False
  have "ulp x \<noteq> 0" by (metis ulp_pos less_irrefl)
  with assms have "x / ulp x = of_int m"
    by (metis nonzero_mult_div_cancel_right)
  then have "rne (x / ulp x) = m" by simp
  with False assms show ?thesis by (simp add: fl_def)
qed

lemma fl_dyadic_pos:
  assumes "0 < m" and "m \<le> 2 ^ 53" and "- 1074 \<le> k"
  shows "fl (of_int m * 2 powi k) = of_int m * 2 powi k"
proof -
  define x :: rat where "x = of_int m * 2 powi k"
  have xpos: "0 < x" using assms(1) by (simp add: x_def)
  then have x0: "x \<noteq> 0" by simp
  have "x \<le> of_int (2 ^ 53) * 2 powi k"
    unfolding x_def using assms(2) by (intro mult_right_mono) (simp_all only: of_int_le_iff, simp)
  also have "\<dots> = 2 powi 53 * 2 powi k" by simp
  also have "\<dots> = 2 powi (53 + k)" by (rule power_int_add [symmetric]) simp
  finally have xle: "x \<le> 2 powi (53 + k)" .
  from expo_bounds [OF x0] xpos xle have "(2::rat) powi expo x \<le> 2 powi (53 + k)" by simp
  then have ele: "expo x \<le> 53 + k" by (rule powi_le_imp_le)
  show ?thesis
  proof (cases "binade x - 52 \<le> k")
    case True
    define d where "d = nat (k - (binade x - 52))"
    have k: "k = int d + (binade x - 52)" using True by (simp add: d_def)
    have "(2::rat) powi k = 2 powi (int d) * 2 powi (binade x - 52)"
      by (subst k, rule power_int_add) simp
    then have "x = of_int (m * 2 ^ d) * ulp x"
      by (simp add: x_def ulp_bin)
    then have "fl x = x" by (rule fl_exact)
    then show ?thesis by (simp only: x_def)
  next
    case False
    with assms(3) have b: "binade x = expo x" by (auto simp: binade_def max_def split: if_splits)
    with False ele have e: "expo x = 53 + k" by simp
    from expo_bounds [OF x0] xpos e have "2 powi (53 + k) \<le> x" by simp
    with xle have x53: "x = 2 powi (53 + k)" by simp
    have "(2::rat) powi (53 + k) = 2 ^ 52 * 2 powi (53 + k - 52)" by (rule pow52)
    then have "x = of_int (2 ^ 52) * ulp x"
      using b e by (simp add: x53 ulp_bin)
    then have "fl x = x" by (rule fl_exact)
    then show ?thesis by (simp only: x_def)
  qed
qed

lemma fl_dyadic:
  assumes "\<bar>m\<bar> \<le> 2 ^ 53" and "- 1074 \<le> k"
  shows "fl (of_int m * 2 powi k) = of_int m * 2 powi k"
proof (cases "0 < m")
  case True
  with assms show ?thesis by (intro fl_dyadic_pos) simp_all
next
  case False
  show ?thesis
  proof (cases "m = 0")
    case True
    then show ?thesis by simp
  next
    case m: False
    with False assms have "fl (of_int (- m) * 2 powi k) = of_int (- m) * 2 powi k"
      by (intro fl_dyadic_pos) simp_all
    then have "fl (- (of_int m * 2 powi k)) = - (of_int m * 2 powi k)" by simp
    then show ?thesis by (simp only: fl_minus neg_equal_iff_equal)
  qed
qed

lemma fl_of_int:
  assumes "\<bar>n\<bar> \<le> 2 ^ 53"
  shows "fl (of_int n) = of_int n"
  using fl_dyadic [OF assms, of 0] by simp

lemma fl_idem: "fl (fl x) = fl x"
proof -
  have pos: "fl (fl x) = fl x" if "0 < x" for x
  proof -
    have k: "- 1074 \<le> binade x - 52" by (simp add: binade_def)
    from that have "0 \<le> x / ulp x"
      using less_imp_le [OF ulp_pos [of x]] by (simp add: zero_le_divide_iff)
    then have "0 \<le> rne (x / ulp x)" by (rule rne_nonneg)
    with rne_upper [OF that] have m: "\<bar>rne (x / ulp x)\<bar> \<le> 2 ^ 53" by simp
    from that have "fl x = of_int (rne (x / ulp x)) * 2 powi (binade x - 52)"
      by (simp add: fl_def ulp_bin)
    with fl_dyadic [OF m k] show ?thesis by simp
  qed
  show ?thesis
  proof (cases "0 < x")
    case True
    then show ?thesis by (rule pos)
  next
    case False
    show ?thesis
    proof (cases "x = 0")
      case True
      then show ?thesis by simp
    next
      case x: False
      with False have "fl (fl (- x)) = fl (- x)" by (intro pos) simp
      then show ?thesis by (simp add: fl_minus)
    qed
  qed
qed

lemma below_one:
  assumes "fl x = x" and "x < 1"
  shows "x \<le> 1 - 1 / 2 ^ 53"
proof (rule ccontr)
  assume "\<not> x \<le> 1 - 1 / 2 ^ 53"
  then have gt: "1 - 1 / 2 ^ 53 < x" by simp
  then have half: "1 / 2 \<le> x" by simp
  then have x0: "x \<noteq> 0" by auto
  have "expo x = - 1"
    using x0 half assms(2) by (intro expo_unique) simp_all
  then have u: "ulp x = 1 / 2 ^ 53"
    by (simp add: ulp_def binade_def power_int_minus_divide)
  define n where "n = rne (x / ulp x)"
  from assms(1) x0 have "x = of_int n / 2 ^ 53"
    by (simp add: fl_def u n_def)
  then have xn: "x * 2 ^ 53 = of_int n" by simp
  from gt have "of_int (2 ^ 53 - 1) < x * 2 ^ 53" by (simp add: field_simps)
  then have "(of_int (2 ^ 53 - 1) :: rat) < of_int n" by (simp only: xn)
  then have 1: "2 ^ 53 - 1 < n" by (simp only: of_int_less_iff)
  from assms(2) have "x * 2 ^ 53 < of_int (2 ^ 53)" by simp
  then have "(of_int n :: rat) < of_int (2 ^ 53)" by (simp only: xn)
  then have 2: "n < 2 ^ 53" by (simp only: of_int_less_iff)
  from 1 2 show False by simp
qed


lemma fl_numeral [simp]:
  "fl 100 = 100" "fl 5000 = 5000" "fl 5100 = 5100" "fl 1 = 1" "fl (1 / 2) = 1 / 2"
proof -
  show "fl 100 = 100" using fl_of_int [of 100] by simp
  show "fl 5000 = 5000" using fl_of_int [of 5000] by simp
  show "fl 5100 = 5100" using fl_of_int [of 5100] by simp
  show "fl 1 = 1" using fl_of_int [of 1] by simp
  show "fl (1 / 2) = 1 / 2" using fl_dyadic [of 1 "- 1"] by (simp add: power_int_minus_divide)
qed

lemma literal_07:
  assumes "fl s = s"
  shows "fl (7 / 10) < s \<longleftrightarrow> 7 / 10 < s"
proof
  assume a: "fl (7 / 10) < s"
  show "7 / 10 < s"
  proof (rule ccontr)
    assume "\<not> 7 / 10 < s"
    then have "s \<le> 7 / 10" by simp
    then have "fl s \<le> fl (7 / 10)" by (rule fl_mono)
    with assms a show False by simp
  qed
next
  assume a: "7 / 10 < s"
  have "fl (7 / 10) \<le> 7 / 10" by code_simp
  with a show "fl (7 / 10) < s" by simp
qed

section \<open>Properties of the filter engine\<close>

text \<open>\<^verbatim>\<open>includes\<close> is the contiguous-sublist relation of the library.\<close>

lemma starts_with_prefix: "starts_with s q = prefix q s"
  by (induction s q rule: starts_with.induct) auto

lemma js_includes_sublist: "js_includes s q = sublist q s"
  by (induction s) (auto simp: starts_with_prefix sublist_Cons_right)

lemma set_js_slice: "set (js_slice xs a b) \<subseteq> set xs"
  unfolding js_slice_def Let_def
  by (meson set_take_subset set_drop_subset subset_trans)

lemma filtered_filter: "filtered pf st data = filter (activePredicates pf st) data"
  unfolding filtered_def Let_def activePredicates_def
  by (auto split: option.splits intro!: filter_cong)

lemma transactions_applyFilters:
  "set (transactions (applyFilters pf st data)) \<subseteq> set (filtered pf st data)"
  by (simp add: applyFilters_def Let_def set_js_slice)

text \<open>
  Claim C1. Every item of the filtered list, and so every item of the page that
  \<^verbatim>\<open>applyFilters\<close> displays, comes from the input and satisfies all active predicates at
  once: the lower-cased query is a substring of the lower-cased user id, merchant or
  country when the query is not empty; the amount lies in the range, both ends included;
  the country and the merchant are among the selected ones when the selection is not
  empty; the label is true under fraud-only; the timestamp is a valid date not before the
  local midnight of the from-date and not after the local end of day of the to-date when
  these are set.
\<close>

theorem applyFilters_sound:
  assumes "t \<in> set (filtered pf st data) \<union> set (transactions (applyFilters pf st data))"
  shows "t \<in> set data \<and>
    (searchQuery st \<noteq> [] \<longrightarrow>
       sublist (toLowerCase pf (searchQuery st)) (toLowerCase pf (user_id (tx t))) \<or>
       sublist (toLowerCase pf (searchQuery st)) (toLowerCase pf (merchant (tx t))) \<or>
       sublist (toLowerCase pf (searchQuery st)) (toLowerCase pf (country (tx t)))) \<and>
    fst (amountRange st) \<le> amount (tx t) \<and> amount (tx t) \<le> snd (amountRange st) \<and>
    (selectedCountries st \<noteq> [] \<longrightarrow> country (tx t) \<in> set (selectedCountries st)) \<and>
    (selectedMerchants st \<noteq> [] \<longrightarrow> merchant (tx t) \<in> set (selectedMerchants st)) \<and>
    (fraudOnly st \<longrightarrow> label t) \<and>
    (\<forall>d. fst (dateRange st) = Some d \<longrightarrow>
       (\<exists>txDate. timestamp (tx t) = Some txDate \<and> startOfDay pf d \<le> txDate)) \<and>
    (\<forall>d. snd (dateRange st) = Some d \<longrightarrow>
       (\<exists>txDate. timestamp (tx t) = Some txDate \<and> txDate \<le> endOfDay pf d))"
proof -
  from assms transactions_applyFilters have "t \<in> set (filtered pf st data)"
    by blast
  then have mem: "t \<in> set data" and act: "activePredicates pf st t"
    by (simp_all add: filtered_filter)
  from act show ?thesis
    unfolding activePredicates_def matchesSearch_def onOrAfter_def onOrBefore_def
    by (auto simp: mem js_includes_sublist split: option.splits)
qed

text \<open>The first sample row passes a state in which every filter is active.\<close>

theorem applyFilters_sound_witness:
  "hd sampleData \<in> set (filtered utc strictFilters sampleData) \<union>
      set (transactions (applyFilters utc strictFilters sampleData)) \<and>
   hd sampleData \<in> set sampleData \<and>
   sublist (toLowerCase utc ''AMA'') (toLowerCase utc (merchant (tx (hd sampleData)))) \<and>
   100 \<le> amount (tx (hd sampleData)) \<and> amount (tx (hd sampleData)) \<le> 5000 \<and>
   country (tx (hd sampleData)) \<in> set [''US''] \<and>
   merchant (tx (hd sampleData)) \<in> set [''Amazon'', ''Uber''] \<and>
   label (hd sampleData) \<and>
   (\<exists>txDate. timestamp (tx (hd sampleData)) = Some txDate \<and> 1699920000000 \<le> txDate) \<and>
   (\<exists>txDate. timestamp (tx (hd sampleData)) = Some txDate \<and> txDate \<le> 1700006399999)"
proof -
  have h: "hd sampleData \<in> set (filtered utc strictFilters sampleData) \<union>
      set (transactions (applyFilters utc strictFilters sampleData))"
    by code_simp
  have q: "searchQuery strictFilters = ''AMA''" "amountRange strictFilters = (100, 5000)"
    "selectedCountries strictFilters = [''US'']"
    "selectedMerchants strictFilters = [''Amazon'', ''Uber'']" "fraudOnly strictFilters"
    "dateRange strictFilters = (Some 1700001000000, Some 1699999000000)"
    "startOfDay utc 1700001000000 = 1699920000000"
    "endOfDay utc 1699999000000 = 1700006399999"
    by (simp_all add: strictFilters_def initial_def utc_def)
  have m: "\<not> sublist (toLowerCase utc ''AMA'') (toLowerCase utc (user_id (tx (hd sampleData))))"
    "\<not> sublist (toLowerCase utc ''AMA'') (toLowerCase utc (country (tx (hd sampleData))))"
    by code_simp+
  from h m applyFilters_sound [OF h] show ?thesis
    by (simp add: q)
qed

section \<open>Pagination and the default filters\<close>

lemma js_slice_page:
  assumes "0 \<le> start" "0 < per"
  shows "js_slice xs start (start + per) = take (nat per) (drop (nat start) xs)"
proof (cases "start < int (length xs)")
  case True
  show ?thesis
  proof (cases "start + per \<le> int (length xs)")
    case True
    with assms \<open>start < int (length xs)\<close> show ?thesis
      by (simp add: js_slice_def Let_def min_def)
  next
    case False
    with assms True have "length (drop (nat start) xs) \<le> nat per" by simp
    with assms True False show ?thesis
      by (simp add: js_slice_def Let_def min_def nat_diff_distrib)
  qed
next
  case False
  with assms show ?thesis
    by (simp add: js_slice_def Let_def min_def)
qed

lemma activePredicates_page: "activePredicates pf (st\<lparr>page := p\<rparr>) = activePredicates pf st"
  by (rule ext) (simp add: activePredicates_def)

lemma filtered_page [simp]: "filtered pf (st\<lparr>page := p\<rparr>) data = filtered pf st data"
  by (simp add: filtered_filter activePredicates_page)

lemma concat_pages:
  "concat (map (\<lambda>p. take m (drop ((p - 1) * m) xs)) [1..<Suc n]) = take (n * m) xs"
proof (induction n)
  case 0
  show ?case by simp
next
  case (Suc n)
  have "take (n * m) xs @ take m (drop (n * m) xs) = take (n * m + m) xs"
    by (simp add: take_add)
  with Suc show ?case by (simp add: add.commute)
qed

lemma page_items:
  assumes "1 \<le> page st" "0 < perPage st"
  shows "transactions (applyFilters pf st data) =
     take (nat (perPage st)) (drop (nat ((page st - 1) * perPage st)) (filtered pf st data))"
  using assms by (simp add: applyFilters_def Let_def js_slice_page)


text \<open>
  Claim C2. For a page index of at least 1 and a positive page size, \<^verbatim>\<open>total\<close> is the number
  of input items that pass all active predicates; the displayed page is the slice of the
  filtered list from \<open>(page - 1) * perPage\<close> up to \<open>page * perPage\<close>; its length is
  \<open>min perPage (total - (page - 1) * perPage)\<close>, or 0 when that is negative; and the pages
  1 to \<open>n\<close> under the same filters, concatenated, are the first \<open>n * perPage\<close> items of
  the filtered list, so all of it, in order, once \<open>n * perPage\<close> reaches \<open>total\<close>.
\<close>

theorem applyFilters_pagination:
  assumes "1 \<le> page st" and "0 < perPage st"
  shows "total (applyFilters pf st data) = length (filter (activePredicates pf st) data) \<and>
    transactions (applyFilters pf st data) =
      take (nat (perPage st)) (drop (nat ((page st - 1) * perPage st)) (filtered pf st data)) \<and>
    int (length (transactions (applyFilters pf st data))) =
      max 0 (min (perPage st) (int (total (applyFilters pf st data)) - (page st - 1) * perPage st)) \<and>
    (\<forall>n. concat (map (\<lambda>p. transactions (applyFilters pf (st\<lparr>page := int p\<rparr>) data)) [1..<Suc n]) =
           take (n * nat (perPage st)) (filtered pf st data)) \<and>
    (\<forall>n. int (total (applyFilters pf st data)) \<le> int n * perPage st \<longrightarrow>
         concat (map (\<lambda>p. transactions (applyFilters pf (st\<lparr>page := int p\<rparr>) data)) [1..<Suc n]) =
           filtered pf st data)"
proof -
  let ?f = "filtered pf st data"
  have tot: "total (applyFilters pf st data) = length ?f"
    by (simp add: applyFilters_def Let_def)
  have items: "transactions (applyFilters pf st data) =
      take (nat (perPage st)) (drop (nat ((page st - 1) * perPage st)) ?f)"
    using assms by (rule page_items)
  have len: "int (length (transactions (applyFilters pf st data))) =
      max 0 (min (perPage st) (int (length ?f) - (page st - 1) * perPage st))"
  proof -
    from assms(2) obtain k where k: "perPage st = int k"
      using zero_le_imp_eq_int [of "perPage st"] by auto
    from assms have "0 \<le> (page st - 1) * int k" by (simp add: k)
    then obtain m where m: "(page st - 1) * int k = int m"
      using zero_le_imp_eq_int by blast
    show ?thesis unfolding items k m by simp
  qed
  have pg: "transactions (applyFilters pf (st\<lparr>page := int p\<rparr>) data) =
      take (nat (perPage st)) (drop ((p - 1) * nat (perPage st)) ?f)" if "1 \<le> p" for p
  proof -
    have "nat ((int p - 1) * perPage st) = (p - 1) * nat (perPage st)"
      using that assms(2) by (simp add: nat_mult_distrib of_nat_diff)
    with that assms(2) page_items [of "st\<lparr>page := int p\<rparr>" pf data] show ?thesis
      by simp
  qed
  have cat: "concat (map (\<lambda>p. transactions (applyFilters pf (st\<lparr>page := int p\<rparr>) data)) [1..<Suc n]) =
      take (n * nat (perPage st)) ?f" for n
  proof -
    have "map (\<lambda>p. transactions (applyFilters pf (st\<lparr>page := int p\<rparr>) data)) [1..<Suc n] =
        map (\<lambda>p. take (nat (perPage st)) (drop ((p - 1) * nat (perPage st)) ?f)) [1..<Suc n]"
      by (rule map_cong) (auto simp: pg)
    then show ?thesis by (simp only: concat_pages)
  qed
  have all: "concat (map (\<lambda>p. transactions (applyFilters pf (st\<lparr>page := int p\<rparr>) data)) [1..<Suc n]) = ?f"
    if "int (length ?f) \<le> int n * perPage st" for n
  proof -
    from that assms(2) have "length ?f \<le> n * nat (perPage st)"
      by (metis nat_int nat_mono nat_mult_distrib of_nat_0_le_iff)
    then show ?thesis unfolding cat by simp
  qed
  show ?thesis
    unfolding tot using items len cat all by (simp add: filtered_filter)
qed


text \<open>
  The three sample rows on pages of one row: two rows pass the default filters, page 2
  shows the second of them, and pages 1 and 2 together give both.
\<close>

theorem applyFilters_pagination_witness:
  "1 \<le> page pagedState \<and> 0 < perPage pagedState \<and>
   total (applyFilters utc pagedState sampleData) = 2 \<and>
   transactions (applyFilters utc pagedState sampleData) = [sampleData ! 2] \<and>
   int (length (transactions (applyFilters utc pagedState sampleData))) = 1 \<and>
   concat (map (\<lambda>p. transactions (applyFilters utc (pagedState\<lparr>page := int p\<rparr>) sampleData))
     [1..<Suc 2]) = [sampleData ! 0, sampleData ! 2]"
proof -
  have h1: "1 \<le> page pagedState" and h2: "0 < perPage pagedState"
    by (simp_all add: pagedState_def initial_def)
  have f: "filtered utc pagedState sampleData = [sampleData ! 0, sampleData ! 2]"
    by code_simp
  have a: "filter (activePredicates utc pagedState) sampleData = [sampleData ! 0, sampleData ! 2]"
    using f by (simp add: filtered_filter)
  have v: "page pagedState = 2" "perPage pagedState = 1"
    by (simp_all add: pagedState_def initial_def)
  note r = applyFilters_pagination [OF h1 h2, of utc sampleData]
  from r have "total (applyFilters utc pagedState sampleData) =
      length (filter (activePredicates utc pagedState) sampleData)"
    by blast
  then have c1: "total (applyFilters utc pagedState sampleData) = 2"
    unfolding a by simp
  from r have c2: "transactions (applyFilters utc pagedState sampleData) =
      take (nat (perPage pagedState))
        (drop (nat ((page pagedState - 1) * perPage pagedState)) (filtered utc pagedState sampleData))"
    by blast
  have c3: "transactions (applyFilters utc pagedState sampleData) = [sampleData ! 2]"
    unfolding c2 f v by simp
  from r have "concat (map (\<lambda>p. transactions (applyFilters utc (pagedState\<lparr>page := int p\<rparr>) sampleData))
      [1..<Suc 2]) = take (2 * nat (perPage pagedState)) (filtered utc pagedState sampleData)"
    by blast
  then have c4: "concat (map (\<lambda>p. transactions (applyFilters utc (pagedState\<lparr>page := int p\<rparr>) sampleData))
      [1..<Suc 2]) = [sampleData ! 0, sampleData ! 2]"
    unfolding f v by simp
  from h1 h2 c1 c3 c4 show ?thesis
    by simp
qed

text \<open>
  Claim C5, as amended. The amount pass of \<^verbatim>\<open>applyFilters\<close> is unconditional and the default
  range is \<open>[0, 5000]\<close>, so with every filter field in its default state the filtered
  list consists of exactly the input items whose amount lies in \<open>[0, 5000]\<close>, and
  \<^verbatim>\<open>total\<close> is their number. The result is the entire input, and \<^verbatim>\<open>total\<close> the input
  length, when every amount of the input lies in that range.
\<close>

theorem default_filters_amount_only:
  assumes "searchQuery st = []" and "amountRange st = (0, 5000)"
    and "selectedCountries st = []" and "selectedMerchants st = []"
    and "\<not> fraudOnly st" and "dateRange st = (None, None)"
  shows "filtered pf st data = filter (\<lambda>t. 0 \<le> amount (tx t) \<and> amount (tx t) \<le> 5000) data \<and>
    total (applyFilters pf st data) =
      length (filter (\<lambda>t. 0 \<le> amount (tx t) \<and> amount (tx t) \<le> 5000) data) \<and>
    ((\<forall>t \<in> set data. 0 \<le> amount (tx t) \<and> amount (tx t) \<le> 5000) \<longrightarrow>
       filtered pf st data = data \<and> total (applyFilters pf st data) = length data)"
proof -
  have f: "filtered pf st data = filter (\<lambda>t. 0 \<le> amount (tx t) \<and> amount (tx t) \<le> 5000) data"
    using assms by (simp add: filtered_def)
  have t: "total (applyFilters pf st data) = length (filtered pf st data)"
    by (simp add: applyFilters_def Let_def)
  show ?thesis unfolding t f by simp
qed

text \<open>
  With the initial state, the sample row of amount 6000 is dropped and the other two stay;
  a list without it is returned whole.
\<close>

theorem default_filters_amount_only_witness:
  "searchQuery initial = [] \<and> amountRange initial = (0, 5000) \<and> selectedCountries initial = [] \<and>
   selectedMerchants initial = [] \<and> \<not> fraudOnly initial \<and> dateRange initial = (None, None) \<and>
   filtered utc initial sampleData = [sampleData ! 0, sampleData ! 2] \<and>
   total (applyFilters utc initial sampleData) = 2 \<and>
   filtered utc initial [sampleData ! 0, sampleData ! 2] = [sampleData ! 0, sampleData ! 2]"
proof -
  have h: "searchQuery initial = []" "amountRange initial = (0, 5000)"
    "selectedCountries initial = []" "selectedMerchants initial = []"
    "\<not> fraudOnly initial" "dateRange initial = (None, None)"
    by (simp_all add: initial_def)
  have a: "\<forall>t \<in> set [sampleData ! 0, sampleData ! 2]. 0 \<le> amount (tx t) \<and> amount (tx t) \<le> 5000"
    by (simp add: sampleData_def sampleRow_def)
  have e: "filter (\<lambda>t. 0 \<le> amount (tx t) \<and> amount (tx t) \<le> 5000) sampleData =
      [sampleData ! 0, sampleData ! 2]"
    by (simp add: sampleData_def sampleRow_def)
  from default_filters_amount_only [OF h, of utc sampleData]
    default_filters_amount_only [OF h, of utc "[sampleData ! 0, sampleData ! 2]"] a h
  show ?thesis unfolding e by simp
qed

text \<open>
  The claim as stated fails on a list of the mock generator: a draw of 0.99 gives the
  amount 5050, which the default range excludes, so the filtered list is not the input and
  \<^verbatim>\<open>total\<close> is not its length.
\<close>

theorem default_filters_counterexample:
  "filtered highDraws initial (generateMockTransactions highDraws 1 0) \<noteq>
     generateMockTransactions highDraws 1 0 \<and>
   total (applyFilters highDraws initial (generateMockTransactions highDraws 1 0)) \<noteq>
     length (generateMockTransactions highDraws 1 0)"
  by code_simp

section \<open>Properties of the mock data generator\<close>

text \<open>
  The loop pushes one record per index, and the record of index \<open>j\<close> starts at draw
  \<open>7 * j\<close>. The recursive equations are unfolded by hand in the proofs.
\<close>

declare show_nat.simps [simp del]
declare mockLoop.simps [simp del]

lemma mockLoop_eq:
  "mockLoop pf count offset i k arr =
     arr @ map (\<lambda>j. mockTransaction pf offset j (k + 7 * (j - i))) [i..<count]"
proof (induction pf count offset i k arr rule: mockLoop.induct)
  case (1 pf count offset i k arr)
  show ?case
  proof (cases "i < count")
    case True
    have "map (\<lambda>j. mockTransaction pf offset j (k + 7 + 7 * (j - (i + 1)))) [Suc i..<count] =
        map (\<lambda>j. mockTransaction pf offset j (k + 7 * (j - i))) [Suc i..<count]"
    proof (rule map_cong [OF refl])
      fix j assume "j \<in> set [Suc i..<count]"
      then have "k + 7 + 7 * (j - (i + 1)) = k + 7 * (j - i)" by auto
      then show "mockTransaction pf offset j (k + 7 + 7 * (j - (i + 1))) =
          mockTransaction pf offset j (k + 7 * (j - i))" by (rule arg_cong)
    qed
    with True "1.IH" show ?thesis
      by (subst mockLoop.simps) (simp add: upt_conv_Cons)
  next
    case False
    then show ?thesis by (subst mockLoop.simps) simp
  qed
qed

lemma generateMockTransactions_map:
  "generateMockTransactions pf count offset =
     map (\<lambda>j. mockTransaction pf offset j (7 * j)) [0..<count]"
  by (simp add: generateMockTransactions_def mockLoop_eq)

lemma length_generateMockTransactions [simp]:
  "length (generateMockTransactions pf count offset) = count"
  by (simp add: generateMockTransactions_map)

lemma digit_char_inj: "a < 10 \<Longrightarrow> b < 10 \<Longrightarrow> digit_char a = digit_char b \<Longrightarrow> a = b"
proof -
  assume a: "a < 10" and b: "b < 10" and e: "digit_char a = digit_char b"
  from e have "(of_char (char_of (48 + a) :: char) :: nat) = of_char (char_of (48 + b) :: char)"
    by (simp add: digit_char_def)
  with a b show "a = b" by simp
qed

lemma digit_char_not_minus: "d < 10 \<Longrightarrow> digit_char d \<noteq> CHR ''-''"
proof
  assume d: "d < 10" and e: "digit_char d = CHR ''-''"
  from e have "(of_char (char_of (48 + d) :: char) :: nat) = of_char CHR ''-''"
    by (simp add: digit_char_def)
  with d show False by simp
qed

text \<open>
  Decimal numerals determine their number, so the generated ids are pairwise distinct.
\<close>

text \<open>
  Decimal numerals determine their number, so ids of different numbers differ.
\<close>

lemma show_nat_nonempty: "show_nat n \<noteq> []" "[] \<noteq> show_nat n"
  by (subst show_nat.simps, simp)+

lemma show_nat_inj: "show_nat n = show_nat m \<Longrightarrow> n = m"
proof (induction n arbitrary: m rule: show_nat.induct)
  case (1 n)
  show ?case
  proof (cases "n < 10")
    case True
    show ?thesis
    proof (cases "m < 10")
      case m: True
      from "1.prems" True m have "digit_char n = digit_char m"
        by (simp add: show_nat.simps [of n] show_nat.simps [of m])
      with True m show ?thesis by (blast intro: digit_char_inj)
    next
      case False
      with "1.prems" True show ?thesis
        by (simp add: show_nat.simps [of n] show_nat.simps [of m] show_nat_nonempty)
    qed
  next
    case False
    show ?thesis
    proof (cases "m < 10")
      case True
      with "1.prems" False show ?thesis
        by (simp add: show_nat.simps [of n] show_nat.simps [of m] show_nat_nonempty)
    next
      case m: False
      from "1.prems" False m have e: "show_nat (n div 10) = show_nat (m div 10)"
        and d: "digit_char (n mod 10) = digit_char (m mod 10)"
        by (simp_all add: show_nat.simps [of n] show_nat.simps [of m])
      from "1.IH" [OF False e] have q: "n div 10 = m div 10" .
      from d have r: "n mod 10 = m mod 10"
        using digit_char_inj [of "n mod 10" "m mod 10"] by simp
      from q r show ?thesis by (metis div_mult_mod_eq)
    qed
  qed
qed

lemma show_nat_no_minus: "CHR ''-'' \<notin> set (show_nat n)"
proof (induction n rule: show_nat.induct)
  case (1 n)
  show ?case
  proof (cases "n < 10")
    case True
    then show ?thesis by (simp add: show_nat.simps [of n] digit_char_not_minus [symmetric])
  next
    case False
    with "1.IH" show ?thesis
      using digit_char_not_minus [of "n mod 10"] by (simp add: show_nat.simps [of n])
  qed
qed

lemma show_int_inj: "show_int a = show_int b \<Longrightarrow> a = b"
proof -
  assume e: "show_int a = show_int b"
  have neg: "show_int x \<noteq> show_int y" if "x < 0" "0 \<le> y" for x y
  proof
    assume "show_int x = show_int y"
    with that have "CHR ''-'' # show_nat (nat (- x)) = show_nat (nat y)"
      by (simp add: show_int_def)
    then have "CHR ''-'' \<in> set (show_nat (nat y))" by (metis list.set_intros(1))
    then show False by (simp add: show_nat_no_minus)
  qed
  show "a = b"
  proof (cases "a < 0")
    case True
    show ?thesis
    proof (cases "b < 0")
      case b: True
      with e True have "show_nat (nat (- a)) = show_nat (nat (- b))" by (simp add: show_int_def)
      then have "nat (- a) = nat (- b)" by (rule show_nat_inj)
      with True b show ?thesis by simp
    next
      case False
      with neg [of a b] True e show ?thesis by simp
    qed
  next
    case False
    show ?thesis
    proof (cases "b < 0")
      case True
      with neg [of b a] False e show ?thesis by simp
    next
      case b: False
      with e False have "show_nat (nat a) = show_nat (nat b)" by (simp add: show_int_def)
      then have "nat a = nat b" by (rule show_nat_inj)
      with False b show ?thesis by simp
    qed
  qed
qed


text \<open>
  Rounding to cents, and then to a double, keeps an amount of \<open>[100, 5100]\<close> inside it.
\<close>

lemma toFixed2_bounds:
  assumes "100 \<le> x" and "x \<le> 5100"
  shows "100 \<le> toFixed2 x \<and> toFixed2 x \<le> 5100"
proof -
  have lo: "10000 \<le> \<lfloor>x * 100 + 1 / 2\<rfloor>"
    using assms(1) by (simp add: le_floor_iff)
  have hi: "\<lfloor>x * 100 + 1 / 2\<rfloor> \<le> 510000"
    using assms(2) by (simp add: floor_le_iff)
  have "(of_int 10000 :: rat) \<le> of_int \<lfloor>x * 100 + 1 / 2\<rfloor>"
    using lo by (simp only: of_int_le_iff)
  moreover have "(of_int \<lfloor>x * 100 + 1 / 2\<rfloor> :: rat) \<le> of_int 510000"
    using hi by (simp only: of_int_le_iff)
  ultimately show ?thesis
    using assms(1) by (simp add: toFixed2_def)
qed

lemma mockTransaction_amount:
  assumes "0 \<le> random pf k" and "random pf k < 1"
  shows "100 \<le> amount (tx (mockTransaction pf offset i k)) \<and>
    amount (tx (mockTransaction pf offset i k)) \<le> 5100"
proof -
  let ?amt = "fl (fl (random pf k * 5000) + 100)"
  from assms have p: "0 \<le> random pf k * 5000" and q: "random pf k * 5000 \<le> 5000" by simp_all
  have "0 \<le> fl (random pf k * 5000)" using p by (rule fl_nonneg)
  moreover have "fl (random pf k * 5000) \<le> fl 5000" using q by (rule fl_mono)
  ultimately have "100 \<le> fl (random pf k * 5000) + 100" and "fl (random pf k * 5000) + 100 \<le> 5100"
    by simp_all
  then have "fl 100 \<le> ?amt" and "?amt \<le> fl 5100" by (simp_all only: fl_mono)
  then have "100 \<le> ?amt" and "?amt \<le> 5100" by simp_all
  then have b: "100 \<le> toFixed2 ?amt \<and> toFixed2 ?amt \<le> 5100" by (rule toFixed2_bounds)
  then have "fl 100 \<le> fl (toFixed2 ?amt)" and "fl (toFixed2 ?amt) \<le> fl 5100"
    by (simp_all only: fl_mono)
  then show ?thesis by (simp add: mockTransaction_def Let_def)
qed

lemma mockTransaction_label:
  "label (mockTransaction pf offset i k) = (fl (7 / 10) < random pf (k + 1))"
  by (simp add: mockTransaction_def Let_def)

lemma mockTransaction_score:
  assumes "fl (random pf (k + 6)) = random pf (k + 6)"
    and "0 \<le> random pf (k + 6)" and "random pf (k + 6) < 1"
  shows "(label (mockTransaction pf offset i k) \<longrightarrow>
       1 / 2 \<le> score (mockTransaction pf offset i k) \<and> score (mockTransaction pf offset i k) \<le> 1) \<and>
    (\<not> label (mockTransaction pf offset i k) \<longrightarrow>
       0 \<le> score (mockTransaction pf offset i k) \<and> score (mockTransaction pf offset i k) < 4 / 10)"
proof -
  let ?r = "random pf (k + 6)"
  from assms(2,3) have p: "0 \<le> ?r * (1 / 2)" and q: "?r * (1 / 2) \<le> 1 / 2" by simp_all
  have "0 \<le> fl (?r * (1 / 2))" using p by (rule fl_nonneg)
  moreover have "fl (?r * (1 / 2)) \<le> fl (1 / 2)" using q by (rule fl_mono)
  ultimately have "1 / 2 \<le> fl (?r * (1 / 2)) + 1 / 2" and "fl (?r * (1 / 2)) + 1 / 2 \<le> 1"
    by simp_all
  then have "fl (1 / 2) \<le> fl (fl (?r * (1 / 2)) + 1 / 2)" and "fl (fl (?r * (1 / 2)) + 1 / 2) \<le> fl 1"
    by (simp_all only: fl_mono)
  then have t: "1 / 2 \<le> fl (fl (?r * (1 / 2)) + 1 / 2)" "fl (fl (?r * (1 / 2)) + 1 / 2) \<le> 1"
    by simp_all
  have c: "0 \<le> fl (4 / 10)" by (intro fl_nonneg) simp
  from assms(1,3) have "?r \<le> 1 - 1 / 2 ^ 53" by (rule below_one)
  then have "?r * fl (4 / 10) \<le> (1 - 1 / 2 ^ 53) * fl (4 / 10)" using c by (rule mult_right_mono)
  then have "fl (?r * fl (4 / 10)) \<le> fl ((1 - 1 / 2 ^ 53) * fl (4 / 10))" by (rule fl_mono)
  moreover have "fl ((1 - 1 / 2 ^ 53) * fl (4 / 10)) < 4 / 10" by code_simp
  ultimately have f1: "fl (?r * fl (4 / 10)) < 4 / 10" by simp
  from assms(2) c have "0 \<le> ?r * fl (4 / 10)" by simp
  then have f0: "0 \<le> fl (?r * fl (4 / 10))" by (rule fl_nonneg)
  from t f0 f1 show ?thesis by (simp add: mockTransaction_def Let_def)
qed

lemma mockTransaction_id:
  assumes "\<forall>n. \<bar>n\<bar> < 10 ^ 21 \<longrightarrow> numberToString pf (of_int n) = show_int n"
    and "- (2 ^ 53) \<le> offset" and "offset + int i + 1 \<le> 2 ^ 53"
  shows "transaction_id (tx (mockTransaction pf offset i k)) = ''TX'' @ show_int (offset + int i + 1)"
proof -
  have "of_int offset + of_nat i = (of_int (offset + int i) :: rat)" by simp
  moreover from assms(2,3) have "\<bar>offset + int i\<bar> \<le> 2 ^ 53" by simp
  then have "fl (of_int (offset + int i)) = of_int (offset + int i)" by (rule fl_of_int)
  ultimately have 1: "fl (of_int offset + of_nat i) = of_int (offset + int i)" by simp
  have "of_int (offset + int i) + 1 = (of_int (offset + int i + 1) :: rat)" by simp
  moreover from assms(2,3) have "\<bar>offset + int i + 1\<bar> \<le> 2 ^ 53" by simp
  then have "fl (of_int (offset + int i + 1)) = of_int (offset + int i + 1)" by (rule fl_of_int)
  ultimately have 2: "fl (fl (of_int offset + of_nat i) + 1) = of_int (offset + int i + 1)"
    by (simp only: 1)
  from assms(2,3) have "\<bar>offset + int i + 1\<bar> < 10 ^ 21" by simp
  with assms(1) have "numberToString pf (of_int (offset + int i + 1)) = show_int (offset + int i + 1)"
    by blast
  with 2 show ?thesis by (simp add: mockTransaction_def Let_def)
qed


lemma distinct_mock_ids:
  "distinct (map (\<lambda>i. ''TX'' @ show_int (offset + int i + 1)) [0..<count])"
proof -
  have "inj_on (\<lambda>i. ''TX'' @ show_int (offset + int i + 1)) (set [0..<count])"
  proof (rule inj_onI)
    fix a b assume "''TX'' @ show_int (offset + int a + 1) = ''TX'' @ show_int (offset + int b + 1)"
    then have "show_int (offset + int a + 1) = show_int (offset + int b + 1)" by simp
    then have "offset + int a + 1 = offset + int b + 1" by (rule show_int_inj)
    then show "a = b" by simp
  qed
  then show ?thesis by (simp add: distinct_map)
qed

text \<open>
  Claim C7, as amended. For every count, and every sequence of draws that are doubles in
  \<open>[0, 1)\<close>, on a platform that prints integers below \<open>10 ^ 21\<close> in decimal: the generator
  returns exactly \<open>count\<close> records; for an integer offset with \<open>- 2 ^ 53 \<le> offset\<close> and
  \<open>offset + count \<le> 2 ^ 53\<close>, where the additions are exact, the id of record \<open>i\<close> is \<^verbatim>\<open>TX\<close>
  followed by \<open>offset + i + 1\<close> and the ids are pairwise distinct; every amount lies in
  \<open>[100, 5100]\<close>; the fraud flag of record \<open>i\<close> is true exactly when its second draw exceeds
  0.7, so the draws of \<open>[0, 1)\<close> that set it are those of the interval \<open>(0.7, 1)\<close>, of length
  0.3 (the distribution of the draws is not part of the model); and the score lies in
  \<open>[0.5, 1]\<close>, the value 1 included, when the flag is true and in \<open>[0, 0.4)\<close> when it is
  false.
\<close>

theorem generateMockTransactions_properties:
  assumes "\<forall>k. fl (random pf k) = random pf k \<and> 0 \<le> random pf k \<and> random pf k < 1"
    and "\<forall>n. \<bar>n\<bar> < 10 ^ 21 \<longrightarrow> numberToString pf (of_int n) = show_int n"
  shows "length (generateMockTransactions pf count offset) = count \<and>
    (- (2 ^ 53) \<le> offset \<and> offset + int count \<le> 2 ^ 53 \<longrightarrow>
       map (\<lambda>t. transaction_id (tx t)) (generateMockTransactions pf count offset) =
         map (\<lambda>i. ''TX'' @ show_int (offset + int i + 1)) [0..<count] \<and>
       distinct (map (\<lambda>t. transaction_id (tx t)) (generateMockTransactions pf count offset))) \<and>
    (\<forall>i < count.
       100 \<le> amount (tx (generateMockTransactions pf count offset ! i)) \<and>
       amount (tx (generateMockTransactions pf count offset ! i)) \<le> 5100 \<and>
       label (generateMockTransactions pf count offset ! i) = (7 / 10 < random pf (7 * i + 1)) \<and>
       (label (generateMockTransactions pf count offset ! i) \<longrightarrow>
          1 / 2 \<le> score (generateMockTransactions pf count offset ! i) \<and>
          score (generateMockTransactions pf count offset ! i) \<le> 1) \<and>
       (\<not> label (generateMockTransactions pf count offset ! i) \<longrightarrow>
          0 \<le> score (generateMockTransactions pf count offset ! i) \<and>
          score (generateMockTransactions pf count offset ! i) < 4 / 10))"
proof -
  let ?g = "generateMockTransactions pf count offset"
  have ids: "map (\<lambda>t. transaction_id (tx t)) ?g =
        map (\<lambda>i. ''TX'' @ show_int (offset + int i + 1)) [0..<count] \<and>
      distinct (map (\<lambda>t. transaction_id (tx t)) ?g)"
    if r: "- (2 ^ 53) \<le> offset \<and> offset + int count \<le> 2 ^ 53"
  proof -
    have "transaction_id (tx (mockTransaction pf offset i (7 * i))) =
        ''TX'' @ show_int (offset + int i + 1)" if "i \<in> set [0..<count]" for i
    proof -
      from that r have "- (2 ^ 53) \<le> offset" and "offset + int i + 1 \<le> 2 ^ 53" by simp_all
      with assms(2) show ?thesis by (rule mockTransaction_id)
    qed
    then have e: "map (\<lambda>t. transaction_id (tx t)) ?g =
        map (\<lambda>i. ''TX'' @ show_int (offset + int i + 1)) [0..<count]"
      by (simp add: generateMockTransactions_map)
    show ?thesis by (simp only: e distinct_mock_ids simp_thms)
  qed
  have rows: "100 \<le> amount (tx (?g ! i)) \<and> amount (tx (?g ! i)) \<le> 5100 \<and>
      label (?g ! i) = (7 / 10 < random pf (7 * i + 1)) \<and>
      (label (?g ! i) \<longrightarrow> 1 / 2 \<le> score (?g ! i) \<and> score (?g ! i) \<le> 1) \<and>
      (\<not> label (?g ! i) \<longrightarrow> 0 \<le> score (?g ! i) \<and> score (?g ! i) < 4 / 10)"
    if "i < count" for i
  proof -
    from that have nth: "?g ! i = mockTransaction pf offset i (7 * i)"
      by (simp add: generateMockTransactions_map)
    from assms(1) have r0: "0 \<le> random pf (7 * i)" "random pf (7 * i) < 1"
      and r1: "fl (random pf (7 * i + 1)) = random pf (7 * i + 1)"
      and r6: "fl (random pf (7 * i + 6)) = random pf (7 * i + 6)"
        "0 \<le> random pf (7 * i + 6)" "random pf (7 * i + 6) < 1"
      by simp_all
    have lab: "label (mockTransaction pf offset i (7 * i)) = (7 / 10 < random pf (7 * i + 1))"
      by (simp only: mockTransaction_label literal_07 [OF r1])
    from mockTransaction_amount [OF r0, of offset i] mockTransaction_score [OF r6, of offset i] lab
    show ?thesis
      unfolding nth by blast
  qed
  have len: "length ?g = count" by simp
  from ids have ids': "- (2 ^ 53) \<le> offset \<and> offset + int count \<le> 2 ^ 53 \<longrightarrow>
       map (\<lambda>t. transaction_id (tx t)) ?g =
         map (\<lambda>i. ''TX'' @ show_int (offset + int i + 1)) [0..<count] \<and>
       distinct (map (\<lambda>t. transaction_id (tx t)) ?g)"
    by blast
  from rows have rows': "\<forall>i < count.
      100 \<le> amount (tx (?g ! i)) \<and> amount (tx (?g ! i)) \<le> 5100 \<and>
      label (?g ! i) = (7 / 10 < random pf (7 * i + 1)) \<and>
      (label (?g ! i) \<longrightarrow> 1 / 2 \<le> score (?g ! i) \<and> score (?g ! i) \<le> 1) \<and>
      (\<not> label (?g ! i) \<longrightarrow> 0 \<le> score (?g ! i) \<and> score (?g ! i) < 4 / 10)"
    by blast
  show ?thesis by (rule conjI [OF len conjI [OF ids' rows']])
qed



text \<open>
  Three records from draws that cycle through the hundredths, the third legitimate, and
  one fraudulent record from the draw 0.99.
\<close>

theorem generateMockTransactions_properties_witness:
  "length (generateMockTransactions utc 3 0) = 3 \<and>
   map (\<lambda>t. transaction_id (tx t)) (generateMockTransactions utc 3 0) = [''TX1'', ''TX2'', ''TX3''] \<and>
   distinct (map (\<lambda>t. transaction_id (tx t)) (generateMockTransactions utc 3 0)) \<and>
   100 \<le> amount (tx (generateMockTransactions utc 3 0 ! 2)) \<and>
   amount (tx (generateMockTransactions utc 3 0 ! 2)) \<le> 5100 \<and>
   \<not> label (generateMockTransactions utc 3 0 ! 2) \<and>
   0 \<le> score (generateMockTransactions utc 3 0 ! 2) \<and>
   score (generateMockTransactions utc 3 0 ! 2) < 4 / 10 \<and>
   label (generateMockTransactions highDraws 1 0 ! 0) \<and>
   1 / 2 \<le> score (generateMockTransactions highDraws 1 0 ! 0) \<and>
   score (generateMockTransactions highDraws 1 0 ! 0) \<le> 1"
proof -
  have lt: "fl (99 / 100) < 1" by code_simp
  have u: "fl (random utc k) = random utc k \<and> 0 \<le> random utc k \<and> random utc k < 1" for k
  proof -
    have "(of_nat ((37 * k + 11) mod 100) :: rat) \<le> 99"
    proof -
      have "(37 * k + 11) mod 100 \<le> 99" using mod_less_divisor [of 100 "37 * k + 11"] by simp
      then have "(of_nat ((37 * k + 11) mod 100) :: rat) \<le> of_nat 99" by (simp only: of_nat_le_iff)
      then show ?thesis by simp
    qed
    then have "(of_nat ((37 * k + 11) mod 100) :: rat) / 100 \<le> 99 / 100" by simp
    then have "fl (of_nat ((37 * k + 11) mod 100) / 100) \<le> fl (99 / 100)" by (rule fl_mono)
    with lt show ?thesis by (simp add: utc_def fl_idem fl_nonneg)
  qed
  then have h1: "\<forall>k. fl (random utc k) = random utc k \<and> 0 \<le> random utc k \<and> random utc k < 1"
    by blast
  have h2: "\<forall>n. \<bar>n\<bar> < 10 ^ 21 \<longrightarrow> numberToString utc (of_int n) = show_int n"
    by (simp add: utc_def)
  have h3: "\<forall>k. fl (random highDraws k) = random highDraws k \<and> 0 \<le> random highDraws k \<and>
      random highDraws k < 1"
    using lt by (simp add: highDraws_def fl_idem fl_nonneg)
  have h4: "\<forall>n. \<bar>n\<bar> < 10 ^ 21 \<longrightarrow> numberToString highDraws (of_int n) = show_int n"
    by (simp add: highDraws_def utc_def)
  have r: "- (2 ^ 53) \<le> (0::int) \<and> 0 + int 3 \<le> 2 ^ 53" by simp
  have e: "map (\<lambda>i. ''TX'' @ show_int (0 + int i + 1)) [0..<3] = [''TX1'', ''TX2'', ''TX3'']"
    by code_simp
  have d: "\<not> 7 / 10 < random utc (7 * 2 + 1)"
    by code_simp
  have f: "7 / 10 < random highDraws (7 * 0 + 1)"
    by code_simp
  note a = generateMockTransactions_properties [OF h1 h2, of 3 0]
  from a have 1: "length (generateMockTransactions utc 3 0) = 3" by blast
  from a r have "map (\<lambda>t. transaction_id (tx t)) (generateMockTransactions utc 3 0) =
         map (\<lambda>i. ''TX'' @ show_int (0 + int i + 1)) [0..<3]"
    and 3: "distinct (map (\<lambda>t. transaction_id (tx t)) (generateMockTransactions utc 3 0))"
    by blast+
  then have 2: "map (\<lambda>t. transaction_id (tx t)) (generateMockTransactions utc 3 0) =
      [''TX1'', ''TX2'', ''TX3'']"
    by (simp only: e)
  have "(2::nat) < 3" by simp
  with a have 4: "100 \<le> amount (tx (generateMockTransactions utc 3 0 ! 2)) \<and>
       amount (tx (generateMockTransactions utc 3 0 ! 2)) \<le> 5100 \<and>
       label (generateMockTransactions utc 3 0 ! 2) = (7 / 10 < random utc (7 * 2 + 1)) \<and>
       (label (generateMockTransactions utc 3 0 ! 2) \<longrightarrow>
          1 / 2 \<le> score (generateMockTransactions utc 3 0 ! 2) \<and>
          score (generateMockTransactions utc 3 0 ! 2) \<le> 1) \<and>
       (\<not> label (generateMockTransactions utc 3 0 ! 2) \<longrightarrow>
          0 \<le> score (generateMockTransactions utc 3 0 ! 2) \<and>
          score (generateMockTransactions utc 3 0 ! 2) < 4 / 10)"
    by blast
  note b = generateMockTransactions_properties [OF h3 h4, of 1 0]
  have "(0::nat) < 1" by simp
  with b have 5: "label (generateMockTransactions highDraws 1 0 ! 0) =
         (7 / 10 < random highDraws (7 * 0 + 1)) \<and>
       (label (generateMockTransactions highDraws 1 0 ! 0) \<longrightarrow>
          1 / 2 \<le> score (generateMockTransactions highDraws 1 0 ! 0) \<and>
          score (generateMockTransactions highDraws 1 0 ! 0) \<le> 1)"
    by blast
  from 1 2 3 4 5 d f show ?thesis by blast
qed

text \<open>
  Two records whose numbers round to the same double get the same id.
\<close>

lemma mockTransaction_same_id:
  assumes "fl (fl (of_int a + of_nat i) + 1) = fl (fl (of_int a + of_nat j) + 1)"
  shows "transaction_id (tx (mockTransaction pf a i k)) = transaction_id (tx (mockTransaction pf a j k'))"
  using assms by (simp add: mockTransaction_def Let_def)

text \<open>
  The claim as stated fails at the ends of its ranges. The largest double below 1 is a
  draw of \<open>[0, 1)\<close>; it sets the flag, and the score \<^verbatim>\<open>r * 0.5 + 0.5\<close> rounds to 1, outside
  \<open>[0.5, 1)\<close>. With the offset \<open>2 ^ 53\<close> the numbers \<open>offset + 0 + 1\<close> and \<open>offset + 1 + 1\<close>
  both round to \<open>2 ^ 53\<close>, and the first two records carry the same id.
\<close>

theorem generator_rounding_counterexample:
  "fl (random edgeDraws 6) = random edgeDraws 6 \<and> 0 \<le> random edgeDraws 6 \<and>
   random edgeDraws 6 < 1 \<and>
   label (generateMockTransactions edgeDraws 1 0 ! 0) \<and>
   score (generateMockTransactions edgeDraws 1 0 ! 0) = 1 \<and>
   transaction_id (tx (generateMockTransactions utc 2 (2 ^ 53) ! 0)) =
     transaction_id (tx (generateMockTransactions utc 2 (2 ^ 53) ! 1))"
proof -
  have 1: "fl (random edgeDraws 6) = random edgeDraws 6 \<and> 0 \<le> random edgeDraws 6 \<and>
      random edgeDraws 6 < 1"
    by code_simp
  have 2: "label (generateMockTransactions edgeDraws 1 0 ! 0) \<and>
      score (generateMockTransactions edgeDraws 1 0 ! 0) = 1"
    by code_simp
  have "fl (fl (of_int (2 ^ 53) + of_nat 0) + 1) = fl (fl (of_int (2 ^ 53) + of_nat 1) + 1)"
    by code_simp
  then have "transaction_id (tx (mockTransaction utc (2 ^ 53) 0 (7 * 0))) =
      transaction_id (tx (mockTransaction utc (2 ^ 53) 1 (7 * 1)))"
    by (rule mockTransaction_same_id)
  moreover have "generateMockTransactions utc 2 (2 ^ 53) ! 0 = mockTransaction utc (2 ^ 53) 0 (7 * 0)"
    "generateMockTransactions utc 2 (2 ^ 53) ! 1 = mockTransaction utc (2 ^ 53) 1 (7 * 1)"
    unfolding generateMockTransactions_map by (simp_all only: nth_map length_upt nth_upt) simp_all
  ultimately have 3: "transaction_id (tx (generateMockTransactions utc 2 (2 ^ 53) ! 0)) =
     transaction_id (tx (generateMockTransactions utc 2 (2 ^ 53) ! 1))"
    by (simp only:)
  from 1 2 3 show ?thesis by blast
qed

section \<open>Properties of the refresh controller\<close>

text \<open>
  \<^verbatim>\<open>applyFilters\<close> writes \<^verbatim>\<open>total\<close> and \<^verbatim>\<open>transactions\<close> only, and the filtered list depends on
  the filter cells only. The two outcomes of \<^verbatim>\<open>fetchTransactions\<close> are then single
  record updates.
\<close>

lemma applyFilters_fields [simp]:
  "toasts (applyFilters pf st data) = toasts st"
  "allTransactions (applyFilters pf st data) = allTransactions st"
  "previousTransactionsRef (applyFilters pf st data) = previousTransactionsRef st"
  "demoMode (applyFilters pf st data) = demoMode st"
  "loading (applyFilters pf st data) = loading st"
  "page (applyFilters pf st data) = page st"
  "perPage (applyFilters pf st data) = perPage st"
  "total (applyFilters pf st data) = length (filtered pf st data)"
  "transactions (applyFilters pf st data) =
     js_slice (filtered pf st data) ((page st - 1) * perPage st)
       ((page st - 1) * perPage st + perPage st)"
  by (simp_all add: applyFilters_def Let_def)

lemma filtered_cong:
  assumes "searchQuery a = searchQuery b" "amountRange a = amountRange b"
    "selectedCountries a = selectedCountries b" "selectedMerchants a = selectedMerchants b"
    "fraudOnly a = fraudOnly b" "dateRange a = dateRange b"
  shows "filtered pf a data = filtered pf b data"
  unfolding filtered_def by (simp only: assms)

lemma filtered_update [simp]:
  "filtered pf (st\<lparr>loading := l\<rparr>) data = filtered pf st data"
  "filtered pf (st\<lparr>toasts := ts\<rparr>) data = filtered pf st data"
  "filtered pf (st\<lparr>demoMode := d\<rparr>) data = filtered pf st data"
  "filtered pf (st\<lparr>allTransactions := a\<rparr>) data = filtered pf st data"
  "filtered pf (st\<lparr>previousTransactionsRef := p\<rparr>) data = filtered pf st data"
  by (rule filtered_cong; simp)+

lemma fetch_success:
  "fetchTransactions pf st silent (Body r) =
     (let allData = resultsOrEmpty r;
          hr = newHighRisk (previousTransactionsRef st) allData;
          s = applyFilters pf
                (st\<lparr>loading := (if silent then loading st else True),
                    allTransactions := allData,
                    toasts := toasts st @
                      (if silent \<and> previousTransactionsRef st \<noteq> [] \<and> hr \<noteq> []
                       then [HighRisk (length hr)] else []),
                    previousTransactionsRef := allData\<rparr>) allData
      in if silent then s else s\<lparr>loading := False\<rparr>)"
  by (simp add: fetchTransactions_def fetchTry_def Let_def)

lemma fetch_failure:
  assumes "\<forall>r. res \<noteq> Body r"
  shows "fetchTransactions pf st silent res =
     (let mockData = generateMockTransactions pf 100 0;
          s = applyFilters pf
                (st\<lparr>loading := (if silent then loading st else True),
                    toasts := toasts st @ (if silent then [] else [UsingDemoData]),
                    demoMode := True,
                    allTransactions := mockData,
                    previousTransactionsRef := mockData\<rparr>) mockData
      in if silent then s else s\<lparr>loading := False\<rparr>)"
  using assms by (cases res) (simp_all add: fetchTransactions_def fetchTry_def fetchCatch_def Let_def)

lemma newHighRisk_filter:
  "newHighRisk A B =
     filter (\<lambda>t. label t \<and> fl (7 / 10) < score t \<and>
                  transaction_id (tx t) \<notin> set (map (\<lambda>p. transaction_id (tx p)) A)) B"
proof -
  have "list_ex (\<lambda>prev. transaction_id (tx prev) = i) A \<longleftrightarrow>
      i \<in> set (map (\<lambda>p. transaction_id (tx p)) A)" for i
    by (induction A) auto
  then show ?thesis by (simp add: newHighRisk_def)
qed


text \<open>
  Claim C3, as amended. The detected set is the list of transactions of the new batch
  with a true label, a score above the literal \<^verbatim>\<open>0.7\<close> (for a score that is a double: above
  0.7) and an id that no transaction of the previous snapshot has. A successful fetch
  raises one notification, carrying the size of that set, when the refresh is silent, the
  previous snapshot is not empty and the set is not empty, and it raises none otherwise:
  an empty previous snapshot counts as none. So for a silent refresh over a non-empty
  snapshot and a batch \<open>B\<close> in which exactly one record \<open>n\<close> has a new id (whatever else \<open>B\<close>
  holds of the old ids): a true label with score 0.85 gives exactly one notification, of
  count 1; a false label, or a score of at most 0.7 such as 0.5, gives none.
\<close>

theorem new_high_risk_detection:
  "newHighRisk A B =
     filter (\<lambda>t. label t \<and> fl (7 / 10) < score t \<and>
                  transaction_id (tx t) \<notin> set (map (\<lambda>p. transaction_id (tx p)) A)) B \<and>
   toasts (fetchTransactions pf st silent (Body r)) =
     toasts st @
       (if silent \<and> previousTransactionsRef st \<noteq> [] \<and>
           newHighRisk (previousTransactionsRef st) (resultsOrEmpty r) \<noteq> []
        then [HighRisk (length (newHighRisk (previousTransactionsRef st) (resultsOrEmpty r)))]
        else []) \<and>
   (previousTransactionsRef st \<noteq> [] \<and>
    filter (\<lambda>t. transaction_id (tx t) \<notin>
                 set (map (\<lambda>p. transaction_id (tx p)) (previousTransactionsRef st))) B = [n] \<longrightarrow>
      (label n \<and> score n = fl (85 / 100) \<longrightarrow>
         toasts (fetchTransactions pf st True (Body (Some B))) = toasts st @ [HighRisk 1]) \<and>
      (\<not> label n \<or> score n \<le> fl (7 / 10) \<longrightarrow>
         toasts (fetchTransactions pf st True (Body (Some B))) = toasts st)) \<and>
   (fl s = s \<longrightarrow> (fl (7 / 10) < s \<longleftrightarrow> 7 / 10 < s))"
proof -
  have general: "toasts (fetchTransactions pf st silent (Body r)) =
     toasts st @
       (if silent \<and> previousTransactionsRef st \<noteq> [] \<and>
           newHighRisk (previousTransactionsRef st) (resultsOrEmpty r) \<noteq> []
        then [HighRisk (length (newHighRisk (previousTransactionsRef st) (resultsOrEmpty r)))]
        else [])" for silent r
    by (simp add: fetch_success Let_def)
  have hi: "fl (7 / 10) < fl (85 / 100)" by code_simp
  have one: "newHighRisk (previousTransactionsRef st) B = filter (\<lambda>t. label t \<and> fl (7 / 10) < score t) [n]"
    if "filter (\<lambda>t. transaction_id (tx t) \<notin>
          set (map (\<lambda>p. transaction_id (tx p)) (previousTransactionsRef st))) B = [n]"
  proof -
    have "newHighRisk (previousTransactionsRef st) B =
        filter (\<lambda>t. label t \<and> fl (7 / 10) < score t)
          (filter (\<lambda>t. transaction_id (tx t) \<notin>
             set (map (\<lambda>p. transaction_id (tx p)) (previousTransactionsRef st))) B)"
      unfolding newHighRisk_filter filter_filter by (rule filter_cong) auto
    with that show ?thesis by simp
  qed
  have scenario: "(label n \<and> score n = fl (85 / 100) \<longrightarrow>
         toasts (fetchTransactions pf st True (Body (Some B))) = toasts st @ [HighRisk 1]) \<and>
      (\<not> label n \<or> score n \<le> fl (7 / 10) \<longrightarrow>
         toasts (fetchTransactions pf st True (Body (Some B))) = toasts st)"
    if "previousTransactionsRef st \<noteq> []"
      and "filter (\<lambda>t. transaction_id (tx t) \<notin>
          set (map (\<lambda>p. transaction_id (tx p)) (previousTransactionsRef st))) B = [n]"
    using that(1) one [OF that(2)] hi by (auto simp: general resultsOrEmpty_def)
  from scenario have p3: "previousTransactionsRef st \<noteq> [] \<and>
    filter (\<lambda>t. transaction_id (tx t) \<notin>
                 set (map (\<lambda>p. transaction_id (tx p)) (previousTransactionsRef st))) B = [n] \<longrightarrow>
      (label n \<and> score n = fl (85 / 100) \<longrightarrow>
         toasts (fetchTransactions pf st True (Body (Some B))) = toasts st @ [HighRisk 1]) \<and>
      (\<not> label n \<or> score n \<le> fl (7 / 10) \<longrightarrow>
         toasts (fetchTransactions pf st True (Body (Some B))) = toasts st)"
    by blast
  have p4: "fl s = s \<longrightarrow> (fl (7 / 10) < s \<longleftrightarrow> 7 / 10 < s)"
    using literal_07 [of s] by blast
  show ?thesis
    by (rule conjI [OF newHighRisk_filter conjI [OF general conjI [OF p3 p4]]])
qed

text \<open>
  Over the snapshot of the second and third sample rows the first row (true, 0.85) is
  reported; over the snapshot of the first two rows the third row (true, 0.5) is not.
\<close>

theorem new_high_risk_detection_witness:
  "toasts (fetchTransactions utc (initial\<lparr>previousTransactionsRef := [sampleData ! 1, sampleData ! 2]\<rparr>)
      True (Body (Some sampleData))) = [HighRisk 1] \<and>
   toasts (fetchTransactions utc (initial\<lparr>previousTransactionsRef := [sampleData ! 0, sampleData ! 1]\<rparr>)
      True (Body (Some sampleData))) = []"
proof -
  let ?s1 = "initial\<lparr>previousTransactionsRef := [sampleData ! 1, sampleData ! 2]\<rparr>"
  let ?s2 = "initial\<lparr>previousTransactionsRef := [sampleData ! 0, sampleData ! 1]\<rparr>"
  have a1: "previousTransactionsRef ?s1 \<noteq> [] \<and>
      filter (\<lambda>t. transaction_id (tx t) \<notin>
        set (map (\<lambda>p. transaction_id (tx p)) (previousTransactionsRef ?s1))) sampleData = [sampleData ! 0]"
    by (simp add: sampleData_def sampleRow_def)
  have b1: "label (sampleData ! 0) \<and> score (sampleData ! 0) = fl (85 / 100)"
    by (simp add: sampleData_def sampleRow_def)
  have a2: "previousTransactionsRef ?s2 \<noteq> [] \<and>
      filter (\<lambda>t. transaction_id (tx t) \<notin>
        set (map (\<lambda>p. transaction_id (tx p)) (previousTransactionsRef ?s2))) sampleData = [sampleData ! 2]"
    by (simp add: sampleData_def sampleRow_def)
  have "1 / 2 \<le> fl (7 / 10)" by code_simp
  then have b2: "\<not> label (sampleData ! 2) \<or> score (sampleData ! 2) \<le> fl (7 / 10)"
    by (simp add: sampleData_def sampleRow_def)
  have t: "toasts ?s1 = []" "toasts ?s2 = []"
    by (simp_all add: initial_def)
  from new_high_risk_detection [where A = "[]" and pf = utc and st = ?s1 and silent = True
      and r = None and B = sampleData and n = "sampleData ! 0" and s = 0] a1 b1
  have 1: "toasts (fetchTransactions utc ?s1 True (Body (Some sampleData))) = toasts ?s1 @ [HighRisk 1]"
    by blast
  from new_high_risk_detection [where A = "[]" and pf = utc and st = ?s2 and silent = True
      and r = None and B = sampleData and n = "sampleData ! 2" and s = 0] a2 b2
  have 2: "toasts (fetchTransactions utc ?s2 True (Body (Some sampleData))) = toasts ?s2"
    by blast
  from 1 2 show ?thesis unfolding t by simp
qed

text \<open>
  The claim as stated fails over an empty previous snapshot, which a successful refresh
  with an empty batch installs: the next silent refresh brings one new id with a true
  label and score 0.85, and no notification is raised.
\<close>

theorem empty_snapshot_counterexample:
  "previousTransactionsRef (fetchTransactions utc initial False (Body (Some []))) = [] \<and>
   label (sampleData ! 0) \<and> score (sampleData ! 0) = fl (85 / 100) \<and>
   toasts (fetchTransactions utc (fetchTransactions utc initial False (Body (Some [])))
     True (Body (Some [sampleData ! 0]))) = []"
  by (simp add: fetch_success Let_def resultsOrEmpty_def initial_def sampleData_def sampleRow_def)

text \<open>
  Claim C4, as amended. When the fetch fails (rejected request, status outside 2xx, or a
  body that does not parse), exactly one error notification is added if the refresh is
  not silent and none if it is silent; in both cases demo mode is entered, the
  transaction set becomes the 100 records of \<^verbatim>\<open>generateMockTransactions(100, 0)\<close>, hence is
  not empty, and the filter engine is run on it. After a successful fetch the transaction
  set is the fetched batch, which may be empty, and the filter engine is run on that.
  \<^verbatim>\<open>fetchTransactions\<close> yields a state for every outcome: the failure is consumed by the
  \<^verbatim>\<open>catch\<close> block.
\<close>

theorem failed_fetch_falls_back:
  "((\<forall>r. res \<noteq> Body r) \<longrightarrow>
      toasts (fetchTransactions pf st silent res) =
        toasts st @ (if silent then [] else [UsingDemoData]) \<and>
      demoMode (fetchTransactions pf st silent res) \<and>
      allTransactions (fetchTransactions pf st silent res) = generateMockTransactions pf 100 0 \<and>
      length (allTransactions (fetchTransactions pf st silent res)) = 100 \<and>
      allTransactions (fetchTransactions pf st silent res) \<noteq> [] \<and>
      total (fetchTransactions pf st silent res) =
        length (filtered pf st (generateMockTransactions pf 100 0)) \<and>
      transactions (fetchTransactions pf st silent res) =
        js_slice (filtered pf st (generateMockTransactions pf 100 0))
          ((page st - 1) * perPage st) ((page st - 1) * perPage st + perPage st)) \<and>
   allTransactions (fetchTransactions pf st silent (Body r)) = resultsOrEmpty r \<and>
   total (fetchTransactions pf st silent (Body r)) = length (filtered pf st (resultsOrEmpty r))"
proof -
  have ne: "generateMockTransactions pf 100 0 \<noteq> []"
    by (metis length_generateMockTransactions list.size(3) zero_neq_numeral)
  have fail: "toasts (fetchTransactions pf st silent res) =
        toasts st @ (if silent then [] else [UsingDemoData]) \<and>
      demoMode (fetchTransactions pf st silent res) \<and>
      allTransactions (fetchTransactions pf st silent res) = generateMockTransactions pf 100 0 \<and>
      length (allTransactions (fetchTransactions pf st silent res)) = 100 \<and>
      allTransactions (fetchTransactions pf st silent res) \<noteq> [] \<and>
      total (fetchTransactions pf st silent res) =
        length (filtered pf st (generateMockTransactions pf 100 0)) \<and>
      transactions (fetchTransactions pf st silent res) =
        js_slice (filtered pf st (generateMockTransactions pf 100 0))
          ((page st - 1) * perPage st) ((page st - 1) * perPage st + perPage st)"
    if "\<forall>r. res \<noteq> Body r"
    unfolding fetch_failure [OF that] by (simp add: Let_def ne)
  have ok: "allTransactions (fetchTransactions pf st silent (Body r)) = resultsOrEmpty r \<and>
      total (fetchTransactions pf st silent (Body r)) = length (filtered pf st (resultsOrEmpty r))"
    unfolding fetch_success by (simp add: Let_def)
  from fail ok show ?thesis by blast
qed


text \<open>
  A status 500 on a manual refresh and a rejected request on a silent one, from the
  initial state.
\<close>

theorem failed_fetch_falls_back_witness:
  "(\<forall>r. NotOk 500 \<noteq> Body r) \<and> (\<forall>r. NetworkError \<noteq> Body r) \<and>
   toasts (fetchTransactions utc initial False (NotOk 500)) = [UsingDemoData] \<and>
   toasts (fetchTransactions utc initial True NetworkError) = [] \<and>
   demoMode (fetchTransactions utc initial False (NotOk 500)) \<and>
   length (allTransactions (fetchTransactions utc initial False (NotOk 500))) = 100 \<and>
   allTransactions (fetchTransactions utc initial True NetworkError) \<noteq> []"
proof -
  have h1: "\<forall>r. NotOk 500 \<noteq> Body r" and h2: "\<forall>r. NetworkError \<noteq> Body r"
    by simp_all
  have t: "toasts initial = []"
    by (simp add: initial_def)
  from failed_fetch_falls_back [where res = "NotOk 500" and pf = utc and st = initial
      and silent = False and r = None] h1
  have 1: "toasts (fetchTransactions utc initial False (NotOk 500)) =
        toasts initial @ (if False then [] else [UsingDemoData])"
    and 2: "demoMode (fetchTransactions utc initial False (NotOk 500))"
    and 3: "length (allTransactions (fetchTransactions utc initial False (NotOk 500))) = 100"
    by blast+
  from failed_fetch_falls_back [where res = NetworkError and pf = utc and st = initial
      and silent = True and r = None] h2
  have 4: "toasts (fetchTransactions utc initial True NetworkError) =
        toasts initial @ (if True then [] else [UsingDemoData])"
    and 5: "allTransactions (fetchTransactions utc initial True NetworkError) \<noteq> []"
    by blast+
  from h1 h2 1 2 3 4 5 show ?thesis
    unfolding t by simp
qed

text \<open>
  The claim as stated fails after a successful refresh: a body with an empty \<^verbatim>\<open>results\<close>
  array, or with none, succeeds and leaves the transaction set empty.
\<close>

theorem successful_fetch_empty_counterexample:
  "allTransactions (fetchTransactions utc initial False (Body (Some []))) = [] \<and>
   allTransactions (fetchTransactions utc initial True (Body None)) = []"
  by (simp add: fetch_success Let_def resultsOrEmpty_def)

lemma fetch_failure_snapshot:
  assumes "\<forall>r. res \<noteq> Body r"
  shows "previousTransactionsRef (fetchTransactions pf st silent res) = generateMockTransactions pf 100 0"
    and "allTransactions (fetchTransactions pf st silent res) = generateMockTransactions pf 100 0"
  by (simp_all add: fetch_failure [OF assms] Let_def)

lemma fetch_success_snapshot:
  "previousTransactionsRef (fetchTransactions pf st silent (Body r)) = resultsOrEmpty r"
  "allTransactions (fetchTransactions pf st silent (Body r)) = resultsOrEmpty r"
  by (simp_all add: fetch_success Let_def)

text \<open>
  Claim C6. After every refresh, silent or not and from any state (the first call
  included), the previous snapshot equals the installed transaction set: the fetched
  batch after a successful fetch, the freshly generated mock data after a failed one.
\<close>

theorem previous_snapshot_is_installed_set:
  "previousTransactionsRef (fetchTransactions pf st silent res) =
     allTransactions (fetchTransactions pf st silent res) \<and>
   previousTransactionsRef (fetchTransactions pf st silent res) =
     (case res of
        Body r \<Rightarrow> resultsOrEmpty r
      | NetworkError \<Rightarrow> generateMockTransactions pf 100 0
      | NotOk status \<Rightarrow> generateMockTransactions pf 100 0
      | MalformedBody \<Rightarrow> generateMockTransactions pf 100 0)"
proof (cases "\<forall>r. res \<noteq> Body r")
  case True
  then show ?thesis
    by (cases res) (simp_all add: fetch_failure_snapshot)
next
  case False
  then obtain r where "res = Body r" by blast
  then show ?thesis
    by (simp add: fetch_success_snapshot)
qed

text \<open>
  A first, manual refresh that succeeds, and a silent one that fails.
\<close>

theorem previous_snapshot_is_installed_set_witness:
  "previousTransactionsRef (fetchTransactions utc initial False (Body (Some sampleData))) = sampleData \<and>
   allTransactions (fetchTransactions utc initial False (Body (Some sampleData))) = sampleData \<and>
   previousTransactionsRef (fetchTransactions utc initial True MalformedBody) =
     generateMockTransactions utc 100 0"
proof -
  note ok = previous_snapshot_is_installed_set [of utc initial False "Body (Some sampleData)"]
  have a: "previousTransactionsRef (fetchTransactions utc initial False (Body (Some sampleData))) =
      allTransactions (fetchTransactions utc initial False (Body (Some sampleData)))"
    using ok by (rule conjunct1)
  have b: "previousTransactionsRef (fetchTransactions utc initial False (Body (Some sampleData))) =
      sampleData"
    using ok [THEN conjunct2] by (simp only: fetch_result.case resultsOrEmpty_def option.case)
  have c: "previousTransactionsRef (fetchTransactions utc initial True MalformedBody) =
      generateMockTransactions utc 100 0"
    using previous_snapshot_is_installed_set [of utc initial True MalformedBody, THEN conjunct2]
    by (simp only: fetch_result.case)
  from a b c show ?thesis by metis
qed

section \<open>Properties of the aggregations, the explanation items and paging\<close>














text \<open>
  Claim C8, as amended. For each pair of names the value under the alternate name
  (\<^verbatim>\<open>feature_name\<close>, \<^verbatim>\<open>shapValue\<close>, \<^verbatim>\<open>feature_value\<close>) is the canonical one whenever that name
  carries a value, whether or not the standard name is present too. The value under the
  standard name (\<^verbatim>\<open>feature\<close>, \<^verbatim>\<open>shap_value\<close>, \<^verbatim>\<open>value\<close>) is preserved when the alternate name
  is absent; for the contribution and the raw value also when the alternate is \<^verbatim>\<open>null\<close>.
\<close>

theorem explanation_normalization:
  "(it_feature_name it = Val a \<longrightarrow> feature (normalizeItem it) = a) \<and>
   (it_feature_name it = Undefined \<and> it_feature it = Val a \<longrightarrow> feature (normalizeItem it) = a) \<and>
   (it_shapValue it = Val v \<longrightarrow> shap_value (normalizeItem it) = v) \<and>
   ((it_shapValue it = Undefined \<or> it_shapValue it = Null) \<and> it_shap_value it = Val v \<longrightarrow>
      shap_value (normalizeItem it) = v) \<and>
   (it_feature_value it = Val w \<longrightarrow> raw_value (normalizeItem it) = Some w) \<and>
   ((it_feature_value it = Undefined \<or> it_feature_value it = Null) \<and> it_value it = Val w \<longrightarrow>
      raw_value (normalizeItem it) = Some w)"
  by (auto simp: normalizeItem_def Let_def destructure_default_def nullish_def)

text \<open>
  An item with both names of every pair, and one with the standard names only.
\<close>

theorem explanation_normalization_witness:
  "feature (normalizeItem bothNames) = ''num__amount'' \<and>
   shap_value (normalizeItem bothNames) = 1 / 4 \<and>
   raw_value (normalizeItem bothNames) = Some (RNum 4) \<and>
   feature (normalizeItem standardNames) = ''num__amount'' \<and>
   shap_value (normalizeItem standardNames) = 15 / 100 \<and>
   raw_value (normalizeItem standardNames) = Some (RNum 3)"
proof -
  have b: "it_feature_name bothNames = Val ''num__amount''" "it_shapValue bothNames = Val (1 / 4)"
    "it_feature_value bothNames = Val (RNum 4)"
    by (simp_all add: bothNames_def)
  have s: "it_feature_name standardNames = Undefined \<and> it_feature standardNames = Val ''num__amount''"
    "(it_shapValue standardNames = Undefined \<or> it_shapValue standardNames = Null) \<and>
       it_shap_value standardNames = Val (15 / 100)"
    "(it_feature_value standardNames = Undefined \<or> it_feature_value standardNames = Null) \<and>
       it_value standardNames = Val (RNum 3)"
    by (simp_all add: standardNames_def)
  from explanation_normalization [of bothNames "''num__amount''" "1 / 4" "RNum 4"] b
    explanation_normalization [of standardNames "''num__amount''" "15 / 100" "RNum 3"] s
  show ?thesis by blast
qed

text \<open>
  The claim as stated fails on an item that offers both names of a pair with different
  values: the standard names are present and none of their values is preserved.
\<close>

theorem standard_names_counterexample:
  "it_feature bothNames = Val ''amount'' \<and> feature (normalizeItem bothNames) \<noteq> ''amount'' \<and>
   it_shap_value bothNames = Val (15 / 100) \<and> shap_value (normalizeItem bothNames) \<noteq> 15 / 100 \<and>
   it_value bothNames = Val (RNum 3) \<and> raw_value (normalizeItem bothNames) \<noteq> Some (RNum 3)"
  by (simp add: bothNames_def normalizeItem_def Let_def destructure_default_def nullish_def)

text \<open>
  Claim C10: when a filter or search change leaves the page index beyond the last page,
  the index is clamped or reset to 1 before the page is displayed. The code does not do
  so. Eleven rows on pages of ten, page 2 displayed; the search query is changed to one
  that a single row matches. The filter effect recomputes the total (1, so one page) and
  slices at the unchanged page index 2: the displayed page is empty. Of the paths that
  change a filter only \<^verbatim>\<open>resetFilters\<close> puts the page index back to 1.
\<close>

theorem filter_change_leaves_page:
  "page pageTwo = 2 \<and> total pageTwo = 11 \<and>
   page (filterChange utc (SetSearchQuery ''U10'') pageTwo) = 2 \<and>
   total (filterChange utc (SetSearchQuery ''U10'') pageTwo) = 1 \<and>
   totalPages (filterChange utc (SetSearchQuery ''U10'') pageTwo) = 1 \<and>
   transactions (filterChange utc (SetSearchQuery ''U10'') pageTwo) = [] \<and>
   page (resetFilters utc pageTwo) = 1"
  by code_simp

end
